theory Spec2Isabelle
  imports Main "HOL-Library.Char_ord" "HOL-Library.List_Lexorder"
begin

section \<open>Python strings\<close>

text \<open>
  A Python \<open>str\<close> is a \<open>string\<close> (a list of characters). The functions below are
  the string methods that \<open>gftools/builder/ninja.py\<close> calls.
\<close>

text \<open>\<open>s.startswith(p)\<close>\<close>

fun startswith :: "string \<Rightarrow> string \<Rightarrow> bool" where
  "startswith s [] = True"
| "startswith [] (p # ps) = False"
| "startswith (c # cs) (p # ps) = (c = p \<and> startswith cs ps)"

text \<open>\<open>s.endswith(p)\<close>\<close>

definition endswith :: "string \<Rightarrow> string \<Rightarrow> bool" where
  "endswith s p = startswith (rev s) (rev p)"

text \<open>\<open>sub in s\<close> for two strings\<close>

fun str_contains :: "string \<Rightarrow> string \<Rightarrow> bool" where
  "str_contains sub [] = (sub = [])"
| "str_contains sub (c # cs) = (startswith (c # cs) sub \<or> str_contains sub cs)"

text \<open>\<open>s.split(sep)\<close> for a one-character separator: never an empty list.\<close>

fun split_on :: "char \<Rightarrow> string \<Rightarrow> string list" where
  "split_on sep [] = [[]]"
| "split_on sep (c # cs) =
     (if c = sep then [] # split_on sep cs
      else (case split_on sep cs of
              [] \<Rightarrow> [[c]]
            | y # ys \<Rightarrow> (c # y) # ys))"

text \<open>\<open>sep.join(xs)\<close>\<close>

fun join :: "string \<Rightarrow> string list \<Rightarrow> string" where
  "join sep [] = []"
| "join sep [x] = x"
| "join sep (x # y # ys) = x @ sep @ join sep (y # ys)"

text \<open>
  \<open>s.replace(old, new)\<close>: every non-overlapping occurrence of \<open>old\<close>, scanning from the
  left, becomes \<open>new\<close>. For an empty \<open>old\<close> Python puts \<open>new\<close> before every character
  and at the end.
\<close>

function replace_scan :: "string \<Rightarrow> string \<Rightarrow> string \<Rightarrow> string" where
  "replace_scan old new [] = []"
| "replace_scan old new (c # cs) =
     (if old \<noteq> [] \<and> startswith (c # cs) old
      then new @ replace_scan old new (drop (length old) (c # cs))
      else c # replace_scan old new cs)"
  by pat_completeness auto
termination
  by (relation "measure (\<lambda>(old, new, s). length s)") (auto simp: neq_Nil_conv)

definition replace :: "string \<Rightarrow> string \<Rightarrow> string \<Rightarrow> string" where
  "replace s old new =
     (if old = [] then new @ concat (map (\<lambda>c. c # new) s)
      else replace_scan old new s)"

text \<open>\<open>s.lower()\<close> on the ASCII letters (a \<open>char\<close> is a byte).\<close>

definition lower_char :: "char \<Rightarrow> char" where
  "lower_char c =
     (case map_of (zip ''ABCDEFGHIJKLMNOPQRSTUVWXYZ'' ''abcdefghijklmnopqrstuvwxyz'') c of
        Some d \<Rightarrow> d
      | None \<Rightarrow> c)"

definition lower :: "string \<Rightarrow> string" where
  "lower s = map lower_char s"

text \<open>\<open>sorted(xs)\<close> on a list of strings: Python compares strings lexicographically by
  code point, which is the order of \<open>HOL-Library.List_Lexorder\<close> over
  \<open>HOL-Library.Char_ord\<close>.\<close>

definition sorted_strs :: "string list \<Rightarrow> string list" where
  "sorted_strs xs = sort xs"

section \<open>Paths: \<open>os.path\<close> and \<open>pathlib\<close> on POSIX\<close>

text \<open>\<open>os.path.join(a, b)\<close> for two components.\<close>

definition os_path_join :: "string \<Rightarrow> string \<Rightarrow> string" where
  "os_path_join a b =
     (if startswith b ''/'' then b
      else if a = [] \<or> endswith a ''/'' then a @ b
      else a @ ''/'' @ b)"

text \<open>\<open>os.path.basename(p)\<close>: what follows the last slash.\<close>

definition os_path_basename :: "string \<Rightarrow> string" where
  "os_path_basename p = last (split_on CHR ''/'' p)"

text \<open>
  A \<open>pathlib.PurePosixPath\<close>: its root (\<open>''''\<close>, \<open>''/''\<close> or \<open>''//''\<close>) and its
  components. Parsing drops empty components and the component \<open>''.''\<close>.
\<close>

datatype path = Path (path_root: string) (path_parts: "string list")

definition parse_path :: "string \<Rightarrow> path" where
  "parse_path s =
     Path (if startswith s ''//'' \<and> \<not> startswith s ''///'' then ''//''
           else if startswith s ''/'' then ''/''
           else [])
          (filter (\<lambda>c. c \<noteq> [] \<and> c \<noteq> ''.'') (split_on CHR ''/'' s))"

text \<open>\<open>str(p)\<close>\<close>

definition path_str :: "path \<Rightarrow> string" where
  "path_str p =
     (if path_root p = [] \<and> path_parts p = [] then ''.''
      else path_root p @ join ''/'' (path_parts p))"

text \<open>\<open>p.parent\<close>\<close>

definition path_parent :: "path \<Rightarrow> path" where
  "path_parent p =
     (if path_parts p = [] then p
      else Path (path_root p) (butlast (path_parts p)))"

text \<open>\<open>p.name\<close>\<close>

definition path_name :: "path \<Rightarrow> string" where
  "path_name p = (if path_parts p = [] then [] else last (path_parts p))"

text \<open>\<open>p / s\<close> for a string \<open>s\<close>: an absolute \<open>s\<close> replaces \<open>p\<close>.\<close>

definition path_div :: "path \<Rightarrow> string \<Rightarrow> path" where
  "path_div p s =
     (let q = parse_path s
      in if path_root q \<noteq> [] then q
         else Path (path_root p) (path_parts p @ path_parts q))"

text \<open>\<open>name.rfind('.')\<close>, \<open>None\<close> standing for Python's \<open>-1\<close>.\<close>

fun rfind :: "char \<Rightarrow> string \<Rightarrow> nat option" where
  "rfind c [] = None"
| "rfind c (x # xs) =
     (case rfind c xs of
        Some i \<Rightarrow> Some (Suc i)
      | None \<Rightarrow> if x = c then Some 0 else None)"

text \<open>The stem of a file name: the name without its last suffix. A leading or a
  trailing dot starts no suffix (\<open>0 < i < len(name) - 1\<close>).\<close>

definition name_stem :: "string \<Rightarrow> string" where
  "name_stem n =
     (case rfind CHR ''.'' n of
        None \<Rightarrow> n
      | Some i \<Rightarrow> if 0 < i \<and> Suc i < length n then take i n else n)"

text \<open>\<open>p.stem\<close>\<close>

definition path_stem :: "path \<Rightarrow> string" where
  "path_stem p = name_stem (path_name p)"

section \<open>Data model\<close>

text \<open>
  A value of the recipe, as \<open>schema.py\<close> admits it: a boolean toggle, a string, a
  sequence of strings (\<open>sources\<close>, \<open>axisOrder\<close>), a string-to-string mapping
  (\<open>vttSources\<close>), or a sequence of structured entries (\<open>stat\<close>, \<open>statFormat4\<close>),
  each entry kept as its Python rendering. The recipe is validated against the schema
  before the builder sees it; where the code needs a string and the value has another
  shape the model answers \<open>TypeError\<close>.
\<close>

datatype pyval =
    PBool bool
  | PStr string
  | PList "string list"
  | PMap "(string \<times> string) list"
  | PTable "string list"

text \<open>Python truthiness: \<open>False\<close> and the empty string, list and dict are false.\<close>

fun truthy :: "pyval \<Rightarrow> bool" where
  "truthy (PBool b) = b"
| "truthy (PStr x) = (x \<noteq> [])"
| "truthy (PList xs) = (xs \<noteq> [])"
| "truthy (PMap m) = (m \<noteq> [])"
| "truthy (PTable es) = (es \<noteq> [])"

text \<open>\<open>str(v)\<close>, as an f-string renders a value (the escapes of \<open>repr\<close> on the
  strings inside a list or dict are not modelled).\<close>

fun py_str :: "pyval \<Rightarrow> string" where
  "py_str (PBool b) = (if b then ''True'' else ''False'')"
| "py_str (PStr x) = x"
| "py_str (PList xs) = ''['' @ join '', '' (map (\<lambda>x. [CHR 0x27] @ x @ [CHR 0x27]) xs) @ '']''"
| "py_str (PMap m) =
     ''{'' @ join '', ''
        (map (\<lambda>(k, v). [CHR 0x27] @ k @ [CHR 0x27] @ '': '' @ [CHR 0x27] @ v @ [CHR 0x27]) m)
      @ ''}''"
| "py_str (PTable es) = ''['' @ join '', '' es @ '']''"

datatype error =
    NotImplementedError
  | ValueError
  | KeyError string
  | TypeError
  | UnboundLocalError
  | IndexError
  | AttributeError
  | AssertionError
  | OSError

type_synonym config = "string \<Rightarrow> pyval option"

text \<open>\<open>config[k]\<close>: a missing key raises \<open>KeyError\<close>.\<close>

definition cfg_item :: "config \<Rightarrow> string \<Rightarrow> error + pyval" where
  "cfg_item c k = (case c k of None \<Rightarrow> Inl (KeyError k) | Some v \<Rightarrow> Inr v)"

text \<open>\<open>config.get(k)\<close> in a condition: a missing key gives \<open>None\<close>, which is false.\<close>

definition cfg_get :: "config \<Rightarrow> string \<Rightarrow> bool" where
  "cfg_get c k = (case c k of None \<Rightarrow> False | Some v \<Rightarrow> truthy v)"

text \<open>A value used where the code needs a \<open>str\<close> (\<open>os.path.join\<close>, \<open>Path\<close>,
  \<open>str.replace\<close>).\<close>

definition as_str :: "pyval \<Rightarrow> error + string" where
  "as_str v = (case v of PStr x \<Rightarrow> Inr x | _ \<Rightarrow> Inl TypeError)"

text \<open>The part of a \<open>DesignSpaceDocument\<close> that the builder reads.\<close>

record axis =
  ax_tag :: string

record instance_descriptor =
  inst_name :: string
  inst_filename :: "string option"

record designspace =
  ds_filename :: string
  ds_axes :: "axis list"
  ds_sources :: "string list"
  ds_instances :: "instance_descriptor list"

text \<open>
  What \<open>ninja_syntax.Writer\<close> has been asked to write: comments, blank lines, rules and
  build statements (edges). \<open>Writer.build\<close> takes a string or a list for its outputs,
  inputs and implicit inputs and makes lists of them (\<open>None\<close> is the empty list);
  an edge holds the lists.
\<close>

record edge =
  e_outputs :: "string list"
  e_rule :: string
  e_inputs :: "string list"
  e_implicit :: "string list"
  e_variables :: "(string \<times> pyval) list"

datatype stmt =
    Comment string
  | Newline
  | Rule string string
  | Build edge

text \<open>
  The state of a \<open>NinjaBuilder\<close> and of the files it touches: the configuration (which
  \<open>gen_stat\<close> updates), the statements written to \<open>build.ninja\<close> so far, the recorded
  stamp files, the resolved design descriptions, and the names of the files on disk.
\<close>

record builder =
  config :: config
  w :: "stmt list"
  temporaries :: "string list"
  designspaces :: "(string \<times> designspace) list"
  disk :: "string set"

text \<open>
  The external collaborators: the two loaders of design descriptions
  (\<open>UFOBuilder(glyphsLib.GSFont(source)).designspace\<close> and
  \<open>DesignSpaceDocument.fromfile\<close>), the order in which Python enumerates a \<open>set\<close>,
  and the executor \<open>ninja._program\<close>, which reads the graph and changes the disk.
\<close>

record env =
  load_glyphs :: "string \<Rightarrow> error + designspace"
  load_designspace :: "string \<Rightarrow> error + designspace"
  list_of_set :: "string list \<Rightarrow> string list"
  ninja_program :: "string list \<Rightarrow> stmt list \<Rightarrow> string set \<Rightarrow> string set"

text \<open>A method returns its value or the exception it raised, and the state it left.\<close>

type_synonym 'a result = "(error + 'a) \<times> builder"

section \<open>The writer\<close>

definition emit :: "stmt \<Rightarrow> builder \<Rightarrow> builder" where
  "emit x s = s\<lparr>w := w s @ [x]\<rparr>"

definition emit_all :: "stmt list \<Rightarrow> builder \<Rightarrow> builder" where
  "emit_all xs s = s\<lparr>w := w s @ xs\<rparr>"

text \<open>\<open>self.w.build(outputs, rule, inputs, implicit=..., variables=...)\<close>\<close>

definition w_build ::
  "string list \<Rightarrow> string \<Rightarrow> string list \<Rightarrow> string list \<Rightarrow> (string \<times> pyval) list
     \<Rightarrow> builder \<Rightarrow> builder" where
  "w_build outs r ins imp vars s =
     emit (Build \<lparr>e_outputs = outs, e_rule = r, e_inputs = ins, e_implicit = imp,
                  e_variables = vars\<rparr>) s"

text \<open>\<open>implicit=None\<close> is no implicit input; a string is one.\<close>

definition as_list :: "string option \<Rightarrow> string list" where
  "as_list x = (case x of None \<Rightarrow> [] | Some y \<Rightarrow> [y])"

text \<open>The edges of a list of statements, in the order written.\<close>

fun edges_of :: "stmt list \<Rightarrow> edge list" where
  "edges_of [] = []"
| "edges_of (Build e # xs) = e # edges_of xs"
| "edges_of (x # xs) = edges_of xs"

section \<open>\<open>NinjaBuilder\<close>\<close>

definition UNSUPPORTED :: "string list" where
  "UNSUPPORTED = [''stylespaceFile'', ''statFormat4'', ''ttfaUseScript'', ''vttSources'']"

subsection \<open>\<open>setup_rules\<close>\<close>

definition setup_rules :: "builder \<Rightarrow> unit result" where
  "setup_rules s =
     (let s1 = emit_all
                 [Comment ''Rules'', Newline,
                  Comment ''Convert glyphs file to UFO'',
                  Rule ''glyphs2ufo'' ''fontmake -o ufo -g $in''] s
      in case cfg_item (config s1) ''buildVariable'' of
           Inl e \<Rightarrow> (Inl e, s1)
         | Inr bv \<Rightarrow>
             let s2 = (if truthy bv
                       then emit_all
                              [Comment ''Build a variable font from Designspace'',
                               Rule ''variable'' ''fontmake -o variable -m $in $fontmake_args''] s1
                       else s1)
             in (Inr (),
                 emit_all
                   [Comment ''Build a set of instance UFOs from Designspace'',
                    Rule ''instanceufo'' ''fontmake -i -o ufo -m $in $fontmake_args'',
                    Comment ''Build a TTF file from a UFO'',
                    Rule ''buildttf'' ''fontmake -o ttf -u $in $fontmake_args --output-path $out'',
                    Comment ''Build an OTF file from a UFO'',
                    Rule ''buildotf'' ''fontmake -o otf -u $in $fontmake_args --output-path $out'',
                    Comment ''Add a STAT table to a set of variable fonts'',
                    Rule ''genstat''
                      ''gftools-gen-stat.py --inplace $other_args --axis-order $axis_order -- $in  && touch $stampfile'',
                    Comment ''Run the font fixer in-place and touch a stamp file'',
                    Rule ''fix'' ''gftools-fix-font.py -o $in $fixargs $in && touch $in.fixstamp'',
                    Comment ''Run the ttfautohint in-place and touch a stamp file'',
                    Rule ''autohint''
                      ''ttfautohint $in $in.autohinted && mv $in.autohinted $in && touch $in.autohintstamp'',
                    Comment ''Create a web font'',
                    Rule ''webfont'' ''fonttools ttLib.woff2 compress -o $out $in'',
                    Newline] s2))"

subsection \<open>\<open>get_designspaces\<close>\<close>

text \<open>
  The loop over \<open>config["sources"]\<close>. A \<open>.glyphs\<close> source is converted: the derived
  design description is written under \<open>master_ufo\<close> (\<open>os.makedirs\<close> creates the
  directory, which the model of the disk does not track) and a conversion edge is
  emitted.
\<close>

fun get_designspaces_loop :: "env \<Rightarrow> string list \<Rightarrow> builder \<Rightarrow> unit result" where
  "get_designspaces_loop ev [] s = (Inr (), s)"
| "get_designspaces_loop ev (source # rest) s =
     (if endswith source ''.glyphs''
      then (case load_glyphs ev source of
              Inl e \<Rightarrow> (Inl e, s)
            | Inr designspace \<Rightarrow>
                let designspace_path = os_path_join ''master_ufo'' (ds_filename designspace);
                    s1 = s\<lparr>disk := insert designspace_path (disk s)\<rparr>;
                    s2 = emit (Comment ''Convert glyphs source to designspace'') s1;
                    designspace_and_ufos =
                      designspace_path #
                      list_of_set ev (map (os_path_join ''master_ufo'') (ds_sources designspace));
                    s3 = w_build designspace_and_ufos ''glyphs2ufo'' [source] [] [] s2
                in get_designspaces_loop ev rest
                     (s3\<lparr>designspaces := designspaces s3 @ [(designspace_path, designspace)]\<rparr>))
      else (case load_designspace ev source of
              Inl e \<Rightarrow> (Inl e, s)
            | Inr designspace \<Rightarrow>
                get_designspaces_loop ev rest
                  (s\<lparr>designspaces := designspaces s @ [(source, designspace)]\<rparr>)))"

definition get_designspaces :: "env \<Rightarrow> builder \<Rightarrow> unit result" where
  "get_designspaces ev s =
     (let s0 = s\<lparr>designspaces := []\<rparr>
      in case cfg_item (config s0) ''sources'' of
           Inl e \<Rightarrow> (Inl e, s0)
         | Inr (PList srcs) \<Rightarrow>
             (case get_designspaces_loop ev srcs s0 of
                (Inl e, s1) \<Rightarrow> (Inl e, s1)
              | (Inr u, s1) \<Rightarrow> (Inr (), emit Newline s1))
         | Inr _ \<Rightarrow> (Inl TypeError, s0))"

subsection \<open>\<open>fontmake_args\<close>\<close>

definition fontmake_args :: "builder \<Rightarrow> (string \<times> string) list \<Rightarrow> error + string" where
  "fontmake_args s args =
     (case cfg_item (config s) ''flattenComponents'' of
        Inl e \<Rightarrow> Inl e
      | Inr fc \<Rightarrow>
          (case cfg_item (config s) ''decomposeTransformedComponents'' of
             Inl e \<Rightarrow> Inl e
           | Inr dc \<Rightarrow>
               Inr (join '' ''
                      ([''--filter ...'']
                       @ (if truthy fc then [''--filter FlattenComponentsFilter''] else [])
                       @ (if truthy dc then [''--filter DecomposeTransformedComponentsFilter''] else [])
                       @ (case map_of args ''output_dir'' of
                            Some d \<Rightarrow> [''--output-dir '' @ d] | None \<Rightarrow> [])
                       @ (case map_of args ''output_path'' of
                            Some d \<Rightarrow> [''--output-path '' @ d] | None \<Rightarrow> [])))))"

subsection \<open>\<open>post_process\<close>\<close>

definition post_process :: "string \<Rightarrow> string option \<Rightarrow> builder \<Rightarrow> unit result" where
  "post_process file imp s =
     (case cfg_item (config s) ''includeSourceFixes'' of
        Inl e \<Rightarrow> (Inl e, s)
      | Inr isf \<Rightarrow>
          let variables = (if truthy isf then [(''fixargs'', PStr ''--include-source-fixes'')] else []);
              s1 = s\<lparr>temporaries := temporaries s @ [file @ ''.fixstamp'']\<rparr>
          in (Inr (), w_build [file @ ''.fixstamp''] ''fix'' [file] (as_list imp) variables s1))"

subsection \<open>\<open>gen_stat\<close>\<close>

definition gen_stat :: "string \<Rightarrow> string list \<Rightarrow> builder \<Rightarrow> string result" where
  "gen_stat axis_tags targets s =
     (let s1 = emit (Comment ''Generate STAT tables'') s;
          s2 = (if config s1 ''axisOrder'' = None
                then s1\<lparr>config := (config s1)(''axisOrder'' \<mapsto>
                         PList (split_on CHR '','' axis_tags
                                @ (if list_ex (\<lambda>x. str_contains ''italic'' (lower (fst x)))
                                        (designspaces s1)
                                   then [''ital''] else [])))\<rparr>
                else s1);
          other_args = (case config s2 ''stat'' of
                          None \<Rightarrow> []
                        | Some v \<Rightarrow> ''--src '' @ py_str v)
      in if config s2 ''stylespaceFile'' \<noteq> None \<or> config s2 ''statFormat4'' \<noteq> None
         then (Inl ValueError, s2)
         else (case targets of
                 [] \<Rightarrow> (Inl IndexError, s2)
               | t0 # ts \<Rightarrow>
                   let stampfile = t0 @ ''.statstamp'';
                       s3 = s2\<lparr>temporaries := temporaries s2 @ [stampfile]\<rparr>
                   in (case cfg_item (config s3) ''axisOrder'' of
                         Inl e \<Rightarrow> (Inl e, s3)
                       | Inr ao \<Rightarrow>
                           (Inr stampfile,
                            emit Newline
                              (w_build [stampfile] ''genstat'' targets []
                                 [(''axis_order'', ao),
                                  (''other_args'', PStr other_args),
                                  (''stampfile'', PStr stampfile)] s3)))))"

subsection \<open>\<open>build_variable\<close>\<close>

text \<open>
  The loop over the design descriptions. It returns the collected targets and the
  last value bound to \<open>axis_tags\<close> (\<open>None\<close> when the loop never ran, so that the name
  is unbound afterwards).
\<close>

fun build_variable_loop ::
  "(string \<times> designspace) list \<Rightarrow> string list \<Rightarrow> string option \<Rightarrow> builder
     \<Rightarrow> (string list \<times> string option) result" where
  "build_variable_loop [] targets axis_tags s = (Inr (targets, axis_tags), s)"
| "build_variable_loop ((designspace_path, designspace) # rest) targets axis_tags s =
     (let axis_tags' = join '','' (sorted_strs (map ax_tag (ds_axes designspace)))
      in case cfg_item (config s) ''vfDir'' of
           Inl e \<Rightarrow> (Inl e, s)
         | Inr v \<Rightarrow>
             (case as_str v of
                Inl e \<Rightarrow> (Inl e, s)
              | Inr vfDir \<Rightarrow>
                  let target = os_path_join vfDir
                                 (path_stem (parse_path designspace_path)
                                  @ ''['' @ axis_tags' @ ''].ttf'')
                  in (case fontmake_args s [(''output_path'', target)] of
                        Inl e \<Rightarrow> (Inl e, s)
                      | Inr fa \<Rightarrow>
                          build_variable_loop rest (targets @ [target]) (Some axis_tags')
                            (w_build [target] ''variable'' [designspace_path] []
                               [(''fontmake_args'', PStr fa)] s))))"

text \<open>\<open>for t in targets: self.post_process(t, implicit=stampfile)\<close>\<close>

fun post_process_each :: "string list \<Rightarrow> string option \<Rightarrow> builder \<Rightarrow> unit result" where
  "post_process_each [] imp s = (Inr (), s)"
| "post_process_each (t # ts) imp s =
     (case post_process t imp s of
        (Inl e, s1) \<Rightarrow> (Inl e, s1)
      | (Inr u, s1) \<Rightarrow> post_process_each ts imp s1)"

definition build_variable :: "builder \<Rightarrow> unit result" where
  "build_variable s =
     (let s1 = emit_all [Newline, Comment ''VARIABLE FONTS'', Newline] s
      in case build_variable_loop (designspaces s1) [] None s1 of
           (Inl e, s2) \<Rightarrow> (Inl e, s2)
         | (Inr (targets, axis_tags), s2) \<Rightarrow>
             let s3 = emit Newline s2
             in (case axis_tags of
                   None \<Rightarrow> (Inl UnboundLocalError, s3)
                 | Some tags \<Rightarrow>
                     (case gen_stat tags targets s3 of
                        (Inl e, s4) \<Rightarrow> (Inl e, s4)
                      | (Inr stampfile, s4) \<Rightarrow>
                          post_process_each targets (Some stampfile)
                            (emit (Comment ''Variable font post-processing'') s4))))"

subsection \<open>\<open>_instance_ufo_filenames\<close>\<close>

text \<open>
  An instance without a filename has \<open>fn = None\<close>, and \<open>"/" in None\<close> raises
  \<open>TypeError\<close>.
\<close>

fun instance_ufo_filenames_loop :: "string \<Rightarrow> instance_descriptor list \<Rightarrow> error + path list" where
  "instance_ufo_filenames_loop p [] = Inr []"
| "instance_ufo_filenames_loop p (i # rest) =
     (case inst_filename i of
        None \<Rightarrow> Inl TypeError
      | Some fn \<Rightarrow>
          let ufo = (if CHR ''/'' \<in> set fn then parse_path fn
                     else path_div (path_parent (parse_path p)) fn)
          in (case instance_ufo_filenames_loop p rest of
                Inl e \<Rightarrow> Inl e
              | Inr ufos \<Rightarrow> Inr (ufo # ufos)))"

definition instance_ufo_filenames :: "string \<Rightarrow> designspace \<Rightarrow> error + path list" where
  "instance_ufo_filenames p designspace = instance_ufo_filenames_loop p (ds_instances designspace)"

subsection \<open>\<open>post_process_ttf\<close>\<close>

definition post_process_ttf :: "string \<Rightarrow> builder \<Rightarrow> unit result" where
  "post_process_ttf filename s =
     (case cfg_item (config s) ''autohintTTF'' of
        Inl e \<Rightarrow> (Inl e, s)
      | Inr ah \<Rightarrow>
          (case (if truthy ah
                 then (case cfg_item (config s) ''ttfaUseScript'' of
                         Inl e \<Rightarrow> (Inl e, s)
                       | Inr us \<Rightarrow>
                           if truthy us then (Inl NotImplementedError, s)
                           else let s1 = w_build [filename @ ''.autohintstamp''] ''autohint''
                                           [filename] [] [] s;
                                    s2 = s1\<lparr>temporaries :=
                                              temporaries s1 @ [filename @ ''.autohintstamp'']\<rparr>
                                in post_process filename (Some (filename @ ''.autohintstamp'')) s2)
                 else post_process filename None s) of
             (Inl e, s3) \<Rightarrow> (Inl e, s3)
           | (Inr u, s3) \<Rightarrow>
               (case cfg_item (config s3) ''buildWebfont'' of
                  Inl e \<Rightarrow> (Inl e, s3)
                | Inr bw \<Rightarrow>
                    if truthy bw
                    then (case cfg_item (config s3) ''ttDir'' of
                            Inl e \<Rightarrow> (Inl e, s3)
                          | Inr td \<Rightarrow>
                              (case cfg_item (config s3) ''woffDir'' of
                                 Inl e \<Rightarrow> (Inl e, s3)
                               | Inr wd \<Rightarrow>
                                   (case as_str td of
                                      Inl e \<Rightarrow> (Inl e, s3)
                                    | Inr ttDir \<Rightarrow>
                                        (case as_str wd of
                                           Inl e \<Rightarrow> (Inl e, s3)
                                         | Inr woffDir \<Rightarrow>
                                             let webfont_filename =
                                                   replace (replace filename ''.ttf'' ''.woff2'')
                                                     ttDir woffDir
                                             in (Inr (),
                                                 w_build [webfont_filename] ''webfont'' [filename]
                                                   [filename @ ''.fixstamp''] [] s3)))))
                    else (Inr (), s3))))"

subsection \<open>\<open>build_a_static_format\<close>\<close>

text \<open>
  \<open>p.with_suffix(suffix)\<close>: a path with an empty name has no suffix to replace, and
  a suffix must start with a dot, be longer than the dot and hold no slash; otherwise
  \<open>ValueError\<close>.
\<close>

definition path_with_suffix :: "string \<Rightarrow> path \<Rightarrow> error + path" where
  "path_with_suffix sfx p =
     (if CHR ''/'' \<in> set sfx \<or> (sfx \<noteq> [] \<and> \<not> startswith sfx ''.'') \<or> sfx = ''.''
      then Inl ValueError
      else if path_name p = [] then Inl ValueError
      else Inr (Path (path_root p) (butlast (path_parts p) @ [name_stem (path_name p) @ sfx])))"

text \<open>The inner loop: one compile edge for each instance UFO.\<close>

fun build_format_ufos ::
  "string \<Rightarrow> pyval \<Rightarrow> path list \<Rightarrow> string list \<Rightarrow> builder \<Rightarrow> (string list) result" where
  "build_format_ufos format target_dir [] targets s = (Inr targets, s)"
| "build_format_ufos format target_dir (ufo # rest) targets s =
     (case as_str target_dir of
        Inl e \<Rightarrow> (Inl e, s)
      | Inr dir \<Rightarrow>
          (case path_with_suffix (''.'' @ format) ufo of
             Inl e \<Rightarrow> (Inl e, s)
           | Inr renamed \<Rightarrow>
               let target = path_str (path_div (parse_path dir) (path_name renamed))
               in (case fontmake_args s [(''output_path'', target)] of
                     Inl e \<Rightarrow> (Inl e, s)
                   | Inr fa \<Rightarrow>
                       build_format_ufos format target_dir rest (targets @ [target])
                         (w_build [target] (''build'' @ format) [path_str ufo] []
                            [(''fontmake_args'', PStr fa)] s))))"

text \<open>The outer loop over the design descriptions.\<close>

fun build_format_designspaces ::
  "string \<Rightarrow> pyval \<Rightarrow> (string \<times> designspace) list \<Rightarrow> string list \<Rightarrow> builder
     \<Rightarrow> (string list) result" where
  "build_format_designspaces format target_dir [] targets s = (Inr targets, s)"
| "build_format_designspaces format target_dir ((p, designspace) # rest) targets s =
     (let s1 = emit (Comment ('' '' @ p)) s
      in case instance_ufo_filenames p designspace of
           Inl e \<Rightarrow> (Inl e, s1)
         | Inr ufos \<Rightarrow>
             (case build_format_ufos format target_dir ufos targets s1 of
                (Inl e, s2) \<Rightarrow> (Inl e, s2)
              | (Inr targets', s2) \<Rightarrow>
                  build_format_designspaces format target_dir rest targets' s2))"

text \<open>\<open>for t in targets: postprocessor(t)\<close>\<close>

fun postprocess_each ::
  "(string \<Rightarrow> builder \<Rightarrow> unit result) \<Rightarrow> string list \<Rightarrow> builder \<Rightarrow> unit result" where
  "postprocess_each postprocessor [] s = (Inr (), s)"
| "postprocess_each postprocessor (t # ts) s =
     (case postprocessor t s of
        (Inl e, s1) \<Rightarrow> (Inl e, s1)
      | (Inr u, s1) \<Rightarrow> postprocess_each postprocessor ts s1)"

text \<open>The parameter \<open>directory\<close> is not read: the directory comes from the
  configuration.\<close>

definition build_a_static_format ::
  "string \<Rightarrow> string \<Rightarrow> (string \<Rightarrow> builder \<Rightarrow> unit result) \<Rightarrow> builder \<Rightarrow> unit result" where
  "build_a_static_format format directory postprocessor s =
     (let s1 = emit_all [Comment (''Build '' @ format @ '' format''), Newline] s
      in case cfg_item (config s1) (if format = ''ttf'' then ''ttDir'' else ''otDir'') of
           Inl e \<Rightarrow> (Inl e, s1)
         | Inr td \<Rightarrow>
             (case build_format_designspaces format td (designspaces s1) [] s1 of
                (Inl e, s2) \<Rightarrow> (Inl e, s2)
              | (Inr targets, s2) \<Rightarrow>
                  (case postprocess_each postprocessor targets
                          (emit_all [Newline, Comment (''Post-processing '' @ format @ ''s'')] s2) of
                     (Inl e, s3) \<Rightarrow> (Inl e, s3)
                   | (Inr u, s3) \<Rightarrow> (Inr (), emit Newline s3))))"

subsection \<open>\<open>build_static\<close>\<close>

text \<open>
  Modelled from the spec: \<open>GFBuilder.build_static\<close>, the method of the base class
  (\<open>gftools/builder/__init__.py\<close>) that \<open>NinjaBuilder.build_static\<close> ends with. For
  each requested output format it emits one compile edge per instance master under the
  format's configured directory and then applies the format's post-processing: the fix
  edge for OTF, the hint-fix-web chain for TTF.
\<close>

definition GFBuilder_build_static :: "builder \<Rightarrow> unit result" where
  "GFBuilder_build_static s =
     (case cfg_item (config s) ''buildOTF'' of
        Inl e \<Rightarrow> (Inl e, s)
      | Inr bo \<Rightarrow>
          (case (if truthy bo
                 then (case cfg_item (config s) ''otDir'' of
                         Inl e \<Rightarrow> (Inl e, s)
                       | Inr od \<Rightarrow>
                           build_a_static_format ''otf'' (py_str od)
                             (\<lambda>t. post_process t None) s)
                 else (Inr (), s)) of
             (Inl e, s1) \<Rightarrow> (Inl e, s1)
           | (Inr u, s1) \<Rightarrow>
               (case cfg_item (config s1) ''buildTTF'' of
                  Inl e \<Rightarrow> (Inl e, s1)
                | Inr bt \<Rightarrow>
                    if truthy bt
                    then (case cfg_item (config s1) ''ttDir'' of
                            Inl e \<Rightarrow> (Inl e, s1)
                          | Inr td \<Rightarrow>
                              build_a_static_format ''ttf'' (py_str td) post_process_ttf s1)
                    else (Inr (), s1))))"

text \<open>The loop of \<open>NinjaBuilder.build_static\<close>: one instantiate edge for each design
  description, its outputs the instance UFOs.\<close>

fun build_static_loop :: "(string \<times> designspace) list \<Rightarrow> builder \<Rightarrow> unit result" where
  "build_static_loop [] s = (Inr (), s)"
| "build_static_loop ((p, designspace) # rest) s =
     (let s1 = emit (Comment (''  Interpolate UFOs for '' @ os_path_basename p)) s
      in case instance_ufo_filenames p designspace of
           Inl e \<Rightarrow> (Inl e, s1)
         | Inr ufos \<Rightarrow>
             build_static_loop rest
               (emit Newline (w_build (map path_str ufos) ''instanceufo'' [p] [] [] s1)))"

definition build_static :: "builder \<Rightarrow> unit result" where
  "build_static s =
     (let s1 = emit_all [Newline, Comment ''STATIC FONTS'', Newline] s
      in case build_static_loop (designspaces s1) s1 of
           (Inl e, s2) \<Rightarrow> (Inl e, s2)
         | (Inr u, s2) \<Rightarrow> GFBuilder_build_static s2)"

subsection \<open>\<open>build_vtt\<close>\<close>

text \<open>The call \<open>self.build_vtt(self.config[k])\<close>: the argument is looked up, then the
  method raises.\<close>

definition build_vtt :: "string \<Rightarrow> builder \<Rightarrow> unit result" where
  "build_vtt k s =
     (case cfg_item (config s) k of
        Inl e \<Rightarrow> (Inl e, s)
      | Inr d \<Rightarrow> (Inl NotImplementedError, s))"

subsection \<open>\<open>build\<close>\<close>

text \<open>
  \<open>os.file.exists(temporary)\<close>: the module \<open>os\<close> has no attribute \<open>file\<close>, so
  evaluating \<open>os.file\<close> raises \<open>AttributeError\<close> before any file is looked at.
\<close>

definition os_file_exists :: "string \<Rightarrow> builder \<Rightarrow> error + bool" where
  "os_file_exists temporary s = Inl AttributeError"

text \<open>\<open>os.remove(temporary)\<close>\<close>

definition os_remove :: "string \<Rightarrow> builder \<Rightarrow> unit result" where
  "os_remove temporary s =
     (if temporary \<in> disk s then (Inr (), s\<lparr>disk := disk s - {temporary}\<rparr>)
      else (Inl OSError, s))"

text \<open>The loop that tidies up the stamp files.\<close>

fun tidy :: "string list \<Rightarrow> builder \<Rightarrow> unit result" where
  "tidy [] s = (Inr (), s)"
| "tidy (temporary # rest) s =
     (case os_file_exists temporary s of
        Inl e \<Rightarrow> (Inl e, s)
      | Inr ex \<Rightarrow>
          if ex
          then (case os_remove temporary s of
                  (Inl e, s1) \<Rightarrow> (Inl e, s1)
                | (Inr u, s1) \<Rightarrow> tidy rest s1)
          else tidy rest s)"

text \<open>The scan of the unsupported keys.\<close>

fun unsupported_scan :: "string list \<Rightarrow> config \<Rightarrow> error + unit" where
  "unsupported_scan [] c = Inr ()"
| "unsupported_scan (unsupported_key # rest) c =
     (if cfg_get c unsupported_key then Inl NotImplementedError
      else unsupported_scan rest c)"

text \<open>
  Graph construction: what \<open>build\<close> does between opening \<open>build.ninja\<close> and closing
  the writer.
\<close>

definition construct :: "env \<Rightarrow> builder \<Rightarrow> unit result" where
  "construct ev s =
     (case setup_rules s of
        (Inl e, s1) \<Rightarrow> (Inl e, s1)
      | (Inr u, s1) \<Rightarrow>
     (case get_designspaces ev s1 of
        (Inl e, s2) \<Rightarrow> (Inl e, s2)
      | (Inr u, s2) \<Rightarrow>
     (case cfg_item (config s2) ''buildVariable'' of
        Inl e \<Rightarrow> (Inl e, s2)
      | Inr bv \<Rightarrow>
     (case (if truthy bv
            then (case build_variable s2 of
                    (Inl e, s3) \<Rightarrow> (Inl e, s3)
                  | (Inr u, s3) \<Rightarrow>
                      if config s3 ''vttSources'' \<noteq> None then build_vtt ''vfDir'' s3
                      else (Inr (), s3))
            else (Inr (), s2)) of
        (Inl e, s4) \<Rightarrow> (Inl e, s4)
      | (Inr u, s4) \<Rightarrow>
     (case cfg_item (config s4) ''buildStatic'' of
        Inl e \<Rightarrow> (Inl e, s4)
      | Inr bs \<Rightarrow>
          if truthy bs
          then (case build_static s4 of
                  (Inl e, s5) \<Rightarrow> (Inl e, s5)
                | (Inr u, s5) \<Rightarrow>
                    if config s5 ''vttSources'' \<noteq> None then build_vtt ''ttDir'' s5
                    else (Inr (), s5))
          else (Inr (), s4))))))"

definition build :: "env \<Rightarrow> builder \<Rightarrow> unit result" where
  "build ev s =
     (case unsupported_scan UNSUPPORTED (config s) of
        Inl e \<Rightarrow> (Inl e, s)
      | Inr u \<Rightarrow>
          (case construct ev
                  (s\<lparr>w := [], temporaries := [], disk := insert ''build.ninja'' (disk s)\<rparr>) of
             (Inl e, s1) \<Rightarrow> (Inl e, s1)
           | (Inr u, s1) \<Rightarrow>
               (case cfg_item (config s1) ''logLevel'' of
                  Inl e \<Rightarrow> (Inl e, s1)
                | Inr ll \<Rightarrow>
                    let ninja_args = (if ll = PStr ''DEBUG'' then [''-v'', ''-j'', ''1''] else []);
                        s2 = s1\<lparr>disk := ninja_program ev ninja_args (w s1) (disk s1)\<rparr>
                    in tidy (temporaries s2) s2)))"

section \<open>\<open>InstantiateUFO\<close>\<close>

text \<open>
  The operation of \<open>operations/instantiateUfo.py\<close>: its configuration \<open>original\<close> and
  its first source, of which the code reads the path, whether it is a Glyphs file, and
  the instances. A \<open>File\<close> is the path it wraps.
\<close>

record source_file =
  src_path :: string
  is_glyphs :: bool
  src_instances :: "instance_descriptor list"

record operation =
  original :: "string \<Rightarrow> string option"
  first_source :: source_file

definition relevant_instance :: "operation \<Rightarrow> error + instance_descriptor option" where
  "relevant_instance opn =
     (case original opn ''instance_name'' of
        None \<Rightarrow> Inl (KeyError ''instance_name'')
      | Some desired \<Rightarrow>
          (case filter (\<lambda>i. inst_name i = desired) (src_instances (first_source opn)) of
             [] \<Rightarrow> Inr None
           | i # rest \<Rightarrow> Inr (Some i)))"

definition validate :: "operation \<Rightarrow> error + unit" where
  "validate opn =
     (case original opn ''instance_name'' of
        None \<Rightarrow> Inl ValueError
      | Some desired \<Rightarrow>
          if original opn ''target'' = None
          then (case relevant_instance opn of
                  Inl e \<Rightarrow> Inl e
                | Inr None \<Rightarrow> Inl ValueError
                | Inr (Some i) \<Rightarrow> Inr ())
          else Inr ())"

definition targets :: "operation \<Rightarrow> error + string list" where
  "targets opn =
     (case original opn ''target'' of
        Some t \<Rightarrow> Inr [t]
      | None \<Rightarrow>
          (case relevant_instance opn of
             Inl e \<Rightarrow> Inl e
           | Inr None \<Rightarrow> Inl AssertionError
           | Inr (Some i) \<Rightarrow>
               (case inst_filename i of
                  None \<Rightarrow> Inl AssertionError
                | Some fn \<Rightarrow>
                    if is_glyphs (first_source opn)
                    then Inr [''instance_ufos/'' @ os_path_basename fn]
                    else Inr [fn])))"

text \<open>\<open>set_target\<close> raises at once; the operation is as it was.\<close>

definition set_target :: "operation \<Rightarrow> string \<Rightarrow> (error + unit) \<times> operation" where
  "set_target opn target = (Inl ValueError, opn)"

section \<open>Vocabulary of the properties\<close>

text \<open>The target that \<open>build_variable\<close> computes for one design description
  \<open>(designspace_path, designspace)\<close>.\<close>

definition variable_target :: "string \<Rightarrow> string \<times> designspace \<Rightarrow> string" where
  "variable_target vfDir x =
     os_path_join vfDir
       (path_stem (parse_path (fst x)) @ ''['' @
        join '','' (sorted_strs (map ax_tag (ds_axes (snd x)))) @ ''].ttf'')"

text \<open>The rules whose edges output a stamp file: table generation, fixing, hinting.\<close>

definition stamp_rules :: "string list" where
  "stamp_rules = [''genstat'', ''fix'', ''autohint'']"

text \<open>Every output of every stamp edge among the statements \<open>g\<close> is in the list
  \<open>ts\<close>.\<close>

definition recorded :: "stmt list \<Rightarrow> string list \<Rightarrow> bool" where
  "recorded g ts =
     (\<forall>e \<in> set (edges_of g). e_rule e \<in> set stamp_rules \<longrightarrow> set (e_outputs e) \<subseteq> set ts)"

definition stamps_recorded :: "builder \<Rightarrow> bool" where
  "stamps_recorded s = recorded (w s) (temporaries s)"

subsection \<open>A family to run the builder on\<close>

definition example_designspace :: designspace where
  "example_designspace =
     \<lparr>ds_filename = ''Family.designspace'',
      ds_axes = [\<lparr>ax_tag = ''wght''\<rparr>, \<lparr>ax_tag = ''wdth''\<rparr>],
      ds_sources = [''Family-Light.ufo'', ''Family-Black.ufo''],
      ds_instances = [\<lparr>inst_name = ''Light'', inst_filename = Some ''Light.ufo''\<rparr>,
                      \<lparr>inst_name = ''Black'', inst_filename = Some ''Black.ufo''\<rparr>]\<rparr>"

text \<open>An executor that creates every output of every edge of the graph.\<close>

definition example_env :: env where
  "example_env =
     \<lparr>load_glyphs = (\<lambda>p. Inr example_designspace),
      load_designspace = (\<lambda>p. Inr example_designspace),
      list_of_set = remdups,
      ninja_program = (\<lambda>args g d. d \<union> set (concat (map e_outputs (edges_of g))))\<rparr>"

definition example_config :: config where
  "example_config = map_of
     [(''sources'', PList [''master/Family.designspace'']),
      (''logLevel'', PStr ''INFO''),
      (''buildVariable'', PBool True),
      (''buildStatic'', PBool True),
      (''buildOTF'', PBool True),
      (''buildTTF'', PBool True),
      (''buildWebfont'', PBool True),
      (''vfDir'', PStr ''../fonts/variable''),
      (''ttDir'', PStr ''../fonts/ttf''),
      (''otDir'', PStr ''../fonts/otf''),
      (''woffDir'', PStr ''../fonts/webfonts''),
      (''autohintTTF'', PBool True),
      (''ttfaUseScript'', PBool False),
      (''includeSourceFixes'', PBool False),
      (''flattenComponents'', PBool True),
      (''decomposeTransformedComponents'', PBool True)]"

definition example_builder :: builder where
  "example_builder =
     \<lparr>config = example_config, w = [], temporaries = [], designspaces = [], disk = {}\<rparr>"

definition example_operation :: operation where
  "example_operation =
     \<lparr>original = map_of [(''instance_name'', ''Light'')],
      first_source = \<lparr>src_path = ''master/Family.designspace'', is_glyphs = False,
                      src_instances = ds_instances example_designspace\<rparr>\<rparr>"

text \<open>The same recipe with per-script hinting switched on.\<close>

definition scripted_builder :: builder where
  "scripted_builder =
     example_builder\<lparr>config := example_config(''ttfaUseScript'' \<mapsto> PBool True)\<rparr>"

text \<open>The edges written between the state \<open>s\<close> and the later state \<open>s'\<close>.\<close>

definition new_edges :: "builder \<Rightarrow> builder \<Rightarrow> edge list" where
  "new_edges s s' = drop (length (edges_of (w s))) (edges_of (w s'))"

text \<open>The edges of one rule, in the order written.\<close>

definition edges_with_rule :: "string \<Rightarrow> edge list \<Rightarrow> edge list" where
  "edges_with_rule r es = filter (\<lambda>e. e_rule e = r) es"

text \<open>A recipe whose TTF directory is \<open>fonts\<close> and whose family is called
  Openfonts, ready for the static stage.\<close>

definition openfonts_builder :: builder where
  "openfonts_builder =
     \<lparr>config = example_config(''ttDir'' \<mapsto> PStr ''fonts'', ''woffDir'' \<mapsto> PStr ''webfonts''),
      w = [], temporaries = [],
      designspaces =
        [(''sources/Openfonts.designspace'',
          \<lparr>ds_filename = ''Openfonts.designspace'', ds_axes = [\<lparr>ax_tag = ''wght''\<rparr>],
           ds_sources = [''Openfonts-Regular.ufo''],
           ds_instances = [\<lparr>inst_name = ''Regular'',
                            inst_filename = Some ''instances/Openfonts-Regular.ufo''\<rparr>]\<rparr>)],
      disk = {}\<rparr>"

text \<open>
  The web-packaging target in the words of the specification: the TTF target with the
  compiled-format directory prefix replaced by the web-format directory prefix and the
  format suffix replaced by the web-format suffix.
\<close>

definition replace_prefix :: "string \<Rightarrow> string \<Rightarrow> string \<Rightarrow> string" where
  "replace_prefix old new s = (if startswith s old then new @ drop (length old) s else s)"

definition replace_suffix :: "string \<Rightarrow> string \<Rightarrow> string \<Rightarrow> string" where
  "replace_suffix old new s =
     (if endswith s old then take (length s - length old) s @ new else s)"

definition spec_webfont_target :: "string \<Rightarrow> string \<Rightarrow> string \<Rightarrow> string" where
  "spec_webfont_target ttDir woffDir t =
     replace_prefix ttDir woffDir (replace_suffix ''.ttf'' ''.woff2'' t)"

text \<open>The example builder once its design description is resolved.\<close>

definition loaded_builder :: builder where
  "loaded_builder =
     example_builder\<lparr>designspaces := [(''master/Family.designspace'', example_designspace)]\<rparr>"

text \<open>The path string that \<open>build_static\<close> writes for an instance with the
  filename \<open>fn\<close> of the design description at the path \<open>p\<close>:
  \<open>str(Path(fn))\<close> or \<open>str(Path(p).parent / fn)\<close>.\<close>

definition instance_target :: "string \<Rightarrow> string \<Rightarrow> string" where
  "instance_target p fn =
     path_str (if CHR ''/'' \<in> set fn then parse_path fn
               else path_div (path_parent (parse_path p)) fn)"

text \<open>A path component in normal form: not empty, not \<open>.\<close>, without a slash.\<close>

definition component :: "string \<Rightarrow> bool" where
  "component c = (c \<noteq> [] \<and> c \<noteq> ''.'' \<and> CHR ''/'' \<notin> set c)"

text \<open>A design description whose instance filename starts with \<open>./\<close>.\<close>

definition dotted_builder :: builder where
  "dotted_builder =
     example_builder\<lparr>designspaces :=
       [(''master/Family.designspace'',
         example_designspace\<lparr>ds_instances :=
           [\<lparr>inst_name = ''Light'', inst_filename = Some ''./instance_ufos/Light.ufo''\<rparr>]\<rparr>)]\<rparr>"

text \<open>The builder as \<open>build\<close> has it when graph construction starts: \<open>build.ninja\<close>
  opened, nothing written, no stamp file recorded.\<close>

definition fresh :: "builder \<Rightarrow> builder" where
  "fresh s = s\<lparr>w := [], temporaries := [], disk := insert ''build.ninja'' (disk s)\<rparr>"

section \<open>Properties\<close>

subsection \<open>The writer and the recorded stamps\<close>

lemma edges_of_append: "edges_of (xs @ ys) = edges_of xs @ edges_of ys"
  by (induction xs rule: edges_of.induct) simp_all

lemma emit_simps [simp]:
  "w (emit x s) = w s @ [x]"
  "temporaries (emit x s) = temporaries s"
  "config (emit x s) = config s"
  "designspaces (emit x s) = designspaces s"
  "disk (emit x s) = disk s"
  by (simp_all add: emit_def)

lemma emit_all_simps [simp]:
  "w (emit_all xs s) = w s @ xs"
  "temporaries (emit_all xs s) = temporaries s"
  "config (emit_all xs s) = config s"
  "designspaces (emit_all xs s) = designspaces s"
  "disk (emit_all xs s) = disk s"
  by (simp_all add: emit_all_def)

lemma w_build_simps [simp]:
  "w (w_build outs r ins imp vars s) =
     w s @ [Build \<lparr>e_outputs = outs, e_rule = r, e_inputs = ins, e_implicit = imp,
                    e_variables = vars\<rparr>]"
  "temporaries (w_build outs r ins imp vars s) = temporaries s"
  "config (w_build outs r ins imp vars s) = config s"
  "designspaces (w_build outs r ins imp vars s) = designspaces s"
  "disk (w_build outs r ins imp vars s) = disk s"
  by (simp_all add: w_build_def)

lemma recorded_append [simp]:
  "recorded (g @ g') ts = (recorded g ts \<and> recorded g' ts)"
  by (auto simp: recorded_def edges_of_append)

lemma recorded_single [simp]:
  "recorded [Build e] ts = (e_rule e \<in> set stamp_rules \<longrightarrow> set (e_outputs e) \<subseteq> set ts)"
  "recorded [Comment c] ts"
  "recorded [Newline] ts"
  "recorded [Rule n c] ts"
  "recorded [] ts"
  by (simp_all add: recorded_def)

lemma recorded_Cons [simp]:
  "recorded (x # y # g) ts = (recorded [x] ts \<and> recorded (y # g) ts)"
  using recorded_append[of "[x]" "y # g" ts] by simp

lemma recorded_mono: "recorded g ts \<Longrightarrow> recorded g (ts @ ts')"
  by (auto simp: recorded_def)

lemma stamp_rule_simps [simp]:
  "''fix'' \<in> set stamp_rules" "''genstat'' \<in> set stamp_rules" "''autohint'' \<in> set stamp_rules"
  "''webfont'' \<notin> set stamp_rules" "''variable'' \<notin> set stamp_rules"
  "''instanceufo'' \<notin> set stamp_rules" "''glyphs2ufo'' \<notin> set stamp_rules"
  "''build'' @ fmt \<notin> set stamp_rules"
  by (simp_all add: stamp_rules_def)

lemma inv_post_process:
  "post_process file imp s = (r, s') \<Longrightarrow> stamps_recorded s \<Longrightarrow> stamps_recorded s'"
  by (auto simp: post_process_def Let_def stamps_recorded_def recorded_mono split: sum.splits)

lemma inv_gen_stat:
  "gen_stat tags ts s = (r, s') \<Longrightarrow> stamps_recorded s \<Longrightarrow> stamps_recorded s'"
  by (auto simp: gen_stat_def Let_def stamps_recorded_def recorded_mono cfg_item_def
           split: sum.splits list.splits option.splits if_splits)

lemma inv_post_process_ttf:
  "post_process_ttf file s = (r, s') \<Longrightarrow> stamps_recorded s \<Longrightarrow> stamps_recorded s'"
  unfolding post_process_ttf_def
  by (auto simp: Let_def stamps_recorded_def recorded_mono
           split: sum.splits prod.splits if_splits
           dest!: inv_post_process)

subsection \<open>\<open>InstantiateUFO.set_target\<close>\<close>

text \<open>
  C9. An operation whose target is structurally derived (its configuration has no
  explicit \<open>target\<close>) rejects an explicit target: \<open>set_target\<close> raises
  \<open>ValueError\<close>, and the operation and the targets it computes are what they were.
\<close>

theorem set_target_rejected:
  assumes "original opn ''target'' = None"
  shows "fst (set_target opn t) = Inl ValueError
       \<and> snd (set_target opn t) = opn
       \<and> targets (snd (set_target opn t)) = targets opn"
  by (simp add: set_target_def)

theorem set_target_rejected_witness:
  "original example_operation ''target'' = None
   \<and> targets example_operation = Inr [''Light.ufo'']
   \<and> fst (set_target example_operation ''elsewhere/Light.ufo'') = Inl ValueError
   \<and> targets (snd (set_target example_operation ''elsewhere/Light.ufo'')) = Inr [''Light.ufo'']"
proof -
  have a: "original example_operation ''target'' = None"
    by (simp add: example_operation_def)
  have b: "targets example_operation = Inr [''Light.ufo'']"
    by (simp add: example_operation_def example_designspace_def targets_def
        relevant_instance_def)
  show ?thesis
    using a b set_target_rejected[OF a, of "''elsewhere/Light.ufo''"] by simp
qed

subsection \<open>The unsupported-feature scan\<close>

lemma unsupported_scan_truthy:
  "\<exists>k \<in> set ks. cfg_get c k \<Longrightarrow> unsupported_scan ks c = Inl NotImplementedError"
  by (induction ks) auto

lemma example_build_facts:
  "fst (build example_env example_builder) = Inl AttributeError
   \<and> temporaries (snd (build example_env example_builder)) =
       [''../fonts/variable/Family[wdth,wght].ttf.statstamp'',
        ''../fonts/variable/Family[wdth,wght].ttf.fixstamp'',
        ''../fonts/otf/Light.otf.fixstamp'', ''../fonts/otf/Black.otf.fixstamp'',
        ''../fonts/ttf/Light.ttf.autohintstamp'', ''../fonts/ttf/Light.ttf.fixstamp'',
        ''../fonts/ttf/Black.ttf.autohintstamp'', ''../fonts/ttf/Black.ttf.fixstamp'']
   \<and> ''build.ninja'' \<in> disk (snd (build example_env example_builder))
   \<and> ''../fonts/variable/Family[wdth,wght].ttf.statstamp''
         \<in> disk (snd (build example_env example_builder))
   \<and> ''../fonts/ttf/Black.ttf.fixstamp'' \<in> disk (snd (build example_env example_builder))"
  by code_simp

text \<open>
  C2, as the code has it. When some key of the unsupported-feature set has a true
  value (\<open>config.get(key)\<close> is neither missing nor \<open>False\<close> nor empty), \<open>build\<close>
  raises \<open>NotImplementedError\<close> and leaves the builder and the disk as they were:
  \<open>build.ninja\<close> is not opened and nothing of the graph is constructed.
\<close>

theorem unsupported_aborts_before_open:
  assumes "\<exists>k \<in> set UNSUPPORTED. cfg_get (config s) k"
  shows "build ev s = (Inl NotImplementedError, s)"
  using unsupported_scan_truthy[OF assms] by (simp add: build_def)

theorem unsupported_aborts_before_open_witness:
  "(\<exists>k \<in> set UNSUPPORTED. cfg_get (config scripted_builder) k)
   \<and> build example_env scripted_builder = (Inl NotImplementedError, scripted_builder)
   \<and> ''build.ninja'' \<notin> disk (snd (build example_env scripted_builder))"
proof -
  have a: "\<exists>k \<in> set UNSUPPORTED. cfg_get (config scripted_builder) k"
    by (simp add: UNSUPPORTED_def scripted_builder_def cfg_get_def example_builder_def)
  have b: "''build.ninja'' \<notin> disk scripted_builder"
    by (simp add: scripted_builder_def example_builder_def)
  show ?thesis
    using a b unsupported_aborts_before_open[OF a, of example_env] by simp
qed

text \<open>
  C2 as stated fails: in the example recipe the key \<open>ttfaUseScript\<close> is present, with
  the value \<open>False\<close>; the build does not raise \<open>NotImplementedError\<close>, and
  \<open>build.ninja\<close> is created.
\<close>

theorem unsupported_key_present_counterexample:
  "''ttfaUseScript'' \<in> set UNSUPPORTED
   \<and> config example_builder ''ttfaUseScript'' = Some (PBool False)
   \<and> ''build.ninja'' \<notin> disk example_builder
   \<and> fst (build example_env example_builder) \<noteq> Inl NotImplementedError
   \<and> ''build.ninja'' \<in> disk (snd (build example_env example_builder))"
  using example_build_facts
  by (simp add: UNSUPPORTED_def example_builder_def example_config_def)

subsection \<open>Tidying up the stamp files\<close>

lemma tidy_fails: "ts \<noteq> [] \<Longrightarrow> tidy ts s = (Inl AttributeError, s)"
  by (cases ts) (simp_all add: os_file_exists_def)

text \<open>
  C4 on the example recipe. The executor has run and has created the stamp files; the
  loop that tidies them up raises \<open>AttributeError\<close> at the first recorded stamp file
  (\<open>os.file.exists\<close>), so \<open>build\<close> ends with that exception and the stamp files are
  still on the disk.
\<close>

theorem cleanup_raises:
  "fst (build example_env example_builder) = Inl AttributeError
   \<and> hd (temporaries (snd (build example_env example_builder))) =
       ''../fonts/variable/Family[wdth,wght].ttf.statstamp''
   \<and> ''../fonts/variable/Family[wdth,wght].ttf.statstamp''
         \<in> disk (snd (build example_env example_builder))
   \<and> ''../fonts/ttf/Black.ttf.fixstamp'' \<in> set (temporaries (snd (build example_env example_builder)))
   \<and> ''../fonts/ttf/Black.ttf.fixstamp'' \<in> disk (snd (build example_env example_builder))"
  using example_build_facts by simp

subsection \<open>Post-processing of a TTF file\<close>

lemma post_process_ok:
  "config s ''includeSourceFixes'' = Some isf \<Longrightarrow>
   post_process file imp s =
     (Inr (),
      s\<lparr>temporaries := temporaries s @ [file @ ''.fixstamp''],
        w := w s @ [Build \<lparr>e_outputs = [file @ ''.fixstamp''], e_rule = ''fix'',
                          e_inputs = [file], e_implicit = as_list imp,
                          e_variables = (if truthy isf
                                         then [(''fixargs'', PStr ''--include-source-fixes'')]
                                         else [])\<rparr>]\<rparr>)"
  by (simp add: post_process_def cfg_item_def w_build_def emit_def Let_def)

lemma edges_with_rule_simps [simp]:
  "edges_with_rule r [] = []"
  "edges_with_rule r (e # es) = (if e_rule e = r then e # edges_with_rule r es else edges_with_rule r es)"
  "edges_with_rule r (es @ es') = edges_with_rule r es @ edges_with_rule r es'"
  by (simp_all add: edges_with_rule_def)

lemma new_edges_append [simp]:
  "w s' = w s @ g \<Longrightarrow> new_edges s s' = edges_of g"
  by (simp add: new_edges_def edges_of_append)

lemma post_process_ttf_edges:
  assumes "config s ''autohintTTF'' = Some ah"
    and "config s ''includeSourceFixes'' = Some isf"
    and "truthy ah \<longrightarrow> (\<exists>us. config s ''ttfaUseScript'' = Some us \<and> \<not> truthy us)"
  shows "\<exists>web. new_edges s (snd (post_process_ttf filename s)) =
           (if truthy ah
            then [\<lparr>e_outputs = [filename @ ''.autohintstamp''], e_rule = ''autohint'',
                    e_inputs = [filename], e_implicit = [], e_variables = []\<rparr>]
            else [])
           @ [\<lparr>e_outputs = [filename @ ''.fixstamp''], e_rule = ''fix'', e_inputs = [filename],
                e_implicit = (if truthy ah then [filename @ ''.autohintstamp''] else []),
                e_variables = (if truthy isf
                               then [(''fixargs'', PStr ''--include-source-fixes'')] else [])\<rparr>]
           @ web
         \<and> (\<forall>e \<in> set web. e_rule e = ''webfont'' \<and> e_inputs e = [filename]
                \<and> e_implicit e = [filename @ ''.fixstamp''])"
proof (cases "truthy ah")
  case True
  then obtain us where us: "config s ''ttfaUseScript'' = Some us" "\<not> truthy us"
    using assms(3) by blast
  show ?thesis
    using assms(1,2) True us
    by (auto simp: post_process_ttf_def post_process_ok cfg_item_def as_str_def Let_def
        as_list_def split: option.splits pyval.splits)
next
  case False
  show ?thesis
    using assms(1,2) False
    by (auto simp: post_process_ttf_def post_process_ok cfg_item_def as_str_def Let_def
        as_list_def split: option.splits pyval.splits)
qed

text \<open>
  C3. \<open>post_process_ttf\<close> on a compiled TTF file writes exactly one fix edge for the
  file. With the hinting toggle \<open>autohintTTF\<close> on (and per-script hinting off, as the
  scan of the unsupported keys guarantees), it writes one hint edge for the file, and the
  implicit inputs of the fix edge are the outputs of that hint edge, its stamp file.
  With the toggle off there is no hint edge and the fix edge has no implicit input.
\<close>

theorem fix_waits_for_hint:
  assumes "config s ''autohintTTF'' = Some ah"
    and "config s ''includeSourceFixes'' = Some isf"
    and "truthy ah \<longrightarrow> (\<exists>us. config s ''ttfaUseScript'' = Some us \<and> \<not> truthy us)"
  shows "\<exists>fix. edges_with_rule ''fix'' (new_edges s (snd (post_process_ttf filename s))) = [fix]
           \<and> e_inputs fix = [filename]
           \<and> (if truthy ah
               then \<exists>hint. edges_with_rule ''autohint''
                               (new_edges s (snd (post_process_ttf filename s))) = [hint]
                          \<and> e_inputs hint = [filename]
                          \<and> e_outputs hint \<noteq> []
                          \<and> e_implicit fix = e_outputs hint
               else edges_with_rule ''autohint''
                      (new_edges s (snd (post_process_ttf filename s))) = []
                    \<and> e_implicit fix = [])"
proof -
  from post_process_ttf_edges[OF assms, of filename] obtain web where
    web: "new_edges s (snd (post_process_ttf filename s)) =
           (if truthy ah
            then [\<lparr>e_outputs = [filename @ ''.autohintstamp''], e_rule = ''autohint'',
                    e_inputs = [filename], e_implicit = [], e_variables = []\<rparr>]
            else [])
           @ [\<lparr>e_outputs = [filename @ ''.fixstamp''], e_rule = ''fix'', e_inputs = [filename],
                e_implicit = (if truthy ah then [filename @ ''.autohintstamp''] else []),
                e_variables = (if truthy isf
                               then [(''fixargs'', PStr ''--include-source-fixes'')] else [])\<rparr>]
           @ web"
    and webr: "\<forall>e \<in> set web. e_rule e = ''webfont'' \<and> e_inputs e = [filename]
                \<and> e_implicit e = [filename @ ''.fixstamp'']"
    by blast
  have nofix: "edges_with_rule ''fix'' web = []" "edges_with_rule ''autohint'' web = []"
    using webr by (auto simp: edges_with_rule_def filter_empty_conv)
  show ?thesis
    by (simp add: web nofix)
qed

text \<open>
  C8, as the code has it. With hinting on, the hint edge for a compiled TTF file \<open>F\<close>
  outputs the stamp file \<open>F.autohintstamp\<close>, and the implicit inputs of the fix edge
  are exactly that path.
\<close>

theorem hint_stamp_is_autohintstamp:
  assumes "config s ''autohintTTF'' = Some ah" and "truthy ah"
    and "config s ''ttfaUseScript'' = Some us" and "\<not> truthy us"
    and "config s ''includeSourceFixes'' = Some isf"
  shows "map e_outputs (edges_with_rule ''autohint''
                           (new_edges s (snd (post_process_ttf filename s))))
           = [[filename @ ''.autohintstamp'']]
       \<and> map e_implicit (edges_with_rule ''fix''
                           (new_edges s (snd (post_process_ttf filename s))))
           = [[filename @ ''.autohintstamp'']]"
proof -
  have h: "truthy ah \<longrightarrow> (\<exists>us. config s ''ttfaUseScript'' = Some us \<and> \<not> truthy us)"
    using assms by blast
  from post_process_ttf_edges[OF assms(1) assms(5) h, of filename] obtain web where
    web: "new_edges s (snd (post_process_ttf filename s)) =
           [\<lparr>e_outputs = [filename @ ''.autohintstamp''], e_rule = ''autohint'',
                    e_inputs = [filename], e_implicit = [], e_variables = []\<rparr>]
           @ [\<lparr>e_outputs = [filename @ ''.fixstamp''], e_rule = ''fix'', e_inputs = [filename],
                e_implicit = [filename @ ''.autohintstamp''],
                e_variables = (if truthy isf
                               then [(''fixargs'', PStr ''--include-source-fixes'')] else [])\<rparr>]
           @ web"
    and webr: "\<forall>e \<in> set web. e_rule e = ''webfont'' \<and> e_inputs e = [filename]
                \<and> e_implicit e = [filename @ ''.fixstamp'']"
    using assms(2) by auto
  have nofix: "edges_with_rule ''fix'' web = []" "edges_with_rule ''autohint'' web = []"
    using webr by (auto simp: edges_with_rule_def filter_empty_conv)
  show ?thesis
    by (simp add: web nofix)
qed

lemma example_cfg:
  "config example_builder ''autohintTTF'' = Some (PBool True)"
  "config example_builder ''ttfaUseScript'' = Some (PBool False)"
  "config example_builder ''includeSourceFixes'' = Some (PBool False)"
  by (simp_all add: example_builder_def example_config_def)

theorem hint_stamp_is_autohintstamp_witness:
  "map e_outputs (edges_with_rule ''autohint''
       (new_edges example_builder (snd (post_process_ttf ''Out/Family-Regular.ttf'' example_builder))))
     = [[''Out/Family-Regular.ttf.autohintstamp'']]
   \<and> map e_implicit (edges_with_rule ''fix''
       (new_edges example_builder (snd (post_process_ttf ''Out/Family-Regular.ttf'' example_builder))))
     = [[''Out/Family-Regular.ttf.autohintstamp'']]"
  using hint_stamp_is_autohintstamp[OF example_cfg(1) _ example_cfg(2) _ example_cfg(3),
      of "''Out/Family-Regular.ttf''"]
  by simp

text \<open>
  C8 as stated fails: for \<open>Out/Family-Regular.ttf\<close> the hint edge does not output
  \<open>Out/Family-Regular.ttf.hintstamp\<close>, and that path is no implicit input of the fix
  edge.
\<close>

theorem hintstamp_suffix_counterexample:
  "cfg_get (config example_builder) ''autohintTTF''
   \<and> map e_outputs (edges_with_rule ''autohint''
       (new_edges example_builder (snd (post_process_ttf ''Out/Family-Regular.ttf'' example_builder))))
     \<noteq> [[''Out/Family-Regular.ttf.hintstamp'']]
   \<and> ''Out/Family-Regular.ttf.hintstamp'' \<notin> set (concat (map e_implicit (edges_with_rule ''fix''
       (new_edges example_builder (snd (post_process_ttf ''Out/Family-Regular.ttf'' example_builder))))))"
  by code_simp

theorem fix_waits_for_hint_witness:
  "edges_with_rule ''autohint''
       (new_edges example_builder (snd (post_process_ttf ''Out/Family-Regular.ttf'' example_builder)))
     \<noteq> []
   \<and> map e_implicit (edges_with_rule ''fix''
       (new_edges example_builder (snd (post_process_ttf ''Out/Family-Regular.ttf'' example_builder))))
     = map e_outputs (edges_with_rule ''autohint''
       (new_edges example_builder (snd (post_process_ttf ''Out/Family-Regular.ttf'' example_builder))))"
  using fix_waits_for_hint[OF example_cfg(1) example_cfg(3), of "''Out/Family-Regular.ttf''"]
    example_cfg(2)
  by auto

text \<open>
  C5 on the Openfonts recipe. The static TTF stage compiles
  \<open>fonts/Openfonts-Regular.ttf\<close>; \<open>str.replace\<close> replaces every occurrence of the
  TTF directory name, also the one inside the file name, so the web-packaging edge
  outputs \<open>webfonts/Openwebfonts-Regular.woff2\<close>, where replacing the directory prefix
  and the suffix gives \<open>webfonts/Openfonts-Regular.woff2\<close>.
\<close>

theorem webfont_replaces_every_occurrence:
  "map e_inputs (edges_with_rule ''webfont''
      (edges_of (w (snd (build_a_static_format ''ttf'' ''fonts'' post_process_ttf openfonts_builder)))))
     = [[''fonts/Openfonts-Regular.ttf'']]
   \<and> map e_outputs (edges_with_rule ''webfont''
      (edges_of (w (snd (build_a_static_format ''ttf'' ''fonts'' post_process_ttf openfonts_builder)))))
     = [[''webfonts/Openwebfonts-Regular.woff2'']]
   \<and> spec_webfont_target ''fonts'' ''webfonts'' ''fonts/Openfonts-Regular.ttf''
     = ''webfonts/Openfonts-Regular.woff2''"
  by code_simp

subsection \<open>The variable-font stage\<close>

lemma fontmake_args_ok:
  "config s ''flattenComponents'' = Some fc \<Longrightarrow>
   config s ''decomposeTransformedComponents'' = Some dc \<Longrightarrow>
   \<exists>fa. fontmake_args s a = Inr fa"
  by (simp add: fontmake_args_def cfg_item_def)

lemma build_variable_loop_ok:
  assumes "config s ''vfDir'' = Some (PStr d)"
    and "config s ''flattenComponents'' = Some fc"
    and "config s ''decomposeTransformedComponents'' = Some dc"
  shows "\<exists>es. build_variable_loop dss tgts tags s =
            (Inr (tgts @ map (variable_target d) dss,
                  if dss = [] then tags
                  else Some (join '','' (sorted_strs (map ax_tag (ds_axes (snd (last dss))))))),
             s\<lparr>w := w s @ map Build es\<rparr>)
          \<and> map e_outputs es = map (\<lambda>x. [variable_target d x]) dss
          \<and> map e_inputs es = map (\<lambda>x. [fst x]) dss
          \<and> (\<forall>e \<in> set es. e_rule e = ''variable'' \<and> e_implicit e = [])"
  using assms
proof (induction dss arbitrary: tgts tags s)
  case Nil
  show ?case by (rule exI[of _ "[]"]) simp
next
  case (Cons x dss)
  obtain p ds where x: "x = (p, ds)" by (cases x)
  obtain fa where fa: "fontmake_args s [(''output_path'', variable_target d x)] = Inr fa"
    using fontmake_args_ok[OF Cons.prems(2,3)] by blast
  let ?e = "\<lparr>e_outputs = [variable_target d x], e_rule = ''variable'', e_inputs = [p],
             e_implicit = [], e_variables = [(''fontmake_args'', PStr fa)]\<rparr>"
  let ?s1 = "w_build [variable_target d x] ''variable'' [p] [] [(''fontmake_args'', PStr fa)] s"
  have cfg1: "config ?s1 ''vfDir'' = Some (PStr d)" "config ?s1 ''flattenComponents'' = Some fc"
    "config ?s1 ''decomposeTransformedComponents'' = Some dc"
    using Cons.prems by simp_all
  from Cons.IH[OF cfg1, of "tgts @ [variable_target d x]"
      "Some (join '','' (sorted_strs (map ax_tag (ds_axes ds))))"]
  obtain es where es:
    "build_variable_loop dss (tgts @ [variable_target d x])
        (Some (join '','' (sorted_strs (map ax_tag (ds_axes ds))))) ?s1 =
       (Inr ((tgts @ [variable_target d x]) @ map (variable_target d) dss,
             if dss = [] then Some (join '','' (sorted_strs (map ax_tag (ds_axes ds))))
             else Some (join '','' (sorted_strs (map ax_tag (ds_axes (snd (last dss))))))),
        ?s1\<lparr>w := w ?s1 @ map Build es\<rparr>)"
    "map e_outputs es = map (\<lambda>x. [variable_target d x]) dss"
    "map e_inputs es = map (\<lambda>x. [fst x]) dss"
    "\<forall>e \<in> set es. e_rule e = ''variable'' \<and> e_implicit e = []"
    by blast
  have step: "build_variable_loop (x # dss) tgts tags s =
      build_variable_loop dss (tgts @ [variable_target d x])
        (Some (join '','' (sorted_strs (map ax_tag (ds_axes ds))))) ?s1"
    using Cons.prems(1) fa
    by (simp add: x cfg_item_def as_str_def variable_target_def Let_def)
  have st: "?s1\<lparr>w := w ?s1 @ map Build es\<rparr> = s\<lparr>w := w s @ map Build (?e # es)\<rparr>"
    by (simp add: w_build_def emit_def)
  show ?case
    apply (rule exI[of _ "?e # es"])
    using es step st by (simp add: x)
qed

lemma gen_stat_ok:
  assumes "config s ''stylespaceFile'' = None" and "config s ''statFormat4'' = None"
  shows "fst (gen_stat tags (t0 # ts) s) = Inr (t0 @ ''.statstamp'')
         \<and> temporaries (snd (gen_stat tags (t0 # ts) s)) = temporaries s @ [t0 @ ''.statstamp'']
         \<and> (\<exists>g. w (snd (gen_stat tags (t0 # ts) s)) =
                    w s @ [Comment ''Generate STAT tables'', Build g, Newline]
                \<and> e_outputs g = [t0 @ ''.statstamp''] \<and> e_rule g = ''genstat''
                \<and> e_inputs g = t0 # ts \<and> e_implicit g = [])
         \<and> (\<forall>k. k \<noteq> ''axisOrder'' \<longrightarrow> config (snd (gen_stat tags (t0 # ts) s)) k = config s k)"
  using assms
  by (cases "config s ''axisOrder''")
     (simp_all add: gen_stat_def Let_def cfg_item_def)

lemma post_process_each_ok:
  assumes "config s ''includeSourceFixes'' = Some isf"
  shows "post_process_each ts imp s =
     (Inr (),
      s\<lparr>temporaries := temporaries s @ map (\<lambda>t. t @ ''.fixstamp'') ts,
        w := w s @ map (\<lambda>t. Build \<lparr>e_outputs = [t @ ''.fixstamp''], e_rule = ''fix'',
                          e_inputs = [t], e_implicit = as_list imp,
                          e_variables = (if truthy isf
                                         then [(''fixargs'', PStr ''--include-source-fixes'')]
                                         else [])\<rparr>) ts\<rparr>)"
  using assms
proof (induction ts arbitrary: s)
  case Nil
  then show ?case by simp
next
  case (Cons t ts)
  show ?case
    by (simp add: post_process_ok[OF Cons.prems] Cons.IH Cons.prems)
qed


lemma edges_of_map_Build [simp]: "edges_of (map (\<lambda>x. Build (f x)) xs) = map f xs"
  by (induction xs) simp_all

lemma edges_of_map_Build_comp [simp]:
  "edges_of (map ((\<lambda>x. Build (f x)) \<circ> h) xs) = map (f \<circ> h) xs"
  by (induction xs) simp_all

lemma edges_of_map_Build' [simp]: "edges_of (map Build es) = es"
  by (induction es) simp_all

lemma build_variable_edges:
  assumes dss: "designspaces s \<noteq> []"
    and vf: "config s ''vfDir'' = Some (PStr d)"
    and fc: "config s ''flattenComponents'' = Some fc"
    and dc: "config s ''decomposeTransformedComponents'' = Some dc"
    and isf: "config s ''includeSourceFixes'' = Some isf"
    and ssf: "config s ''stylespaceFile'' = None"
    and sf4: "config s ''statFormat4'' = None"
  shows "\<exists>es g. fst (build_variable s) = Inr ()
          \<and> new_edges s (snd (build_variable s)) =
              es @ [g] @
              map (\<lambda>t. \<lparr>e_outputs = [t @ ''.fixstamp''], e_rule = ''fix'', e_inputs = [t],
                         e_implicit = [variable_target d (hd (designspaces s)) @ ''.statstamp''],
                         e_variables = (if truthy isf
                                        then [(''fixargs'', PStr ''--include-source-fixes'')]
                                        else [])\<rparr>)
                  (map (variable_target d) (designspaces s))
          \<and> map e_outputs es = map (\<lambda>x. [variable_target d x]) (designspaces s)
          \<and> map e_inputs es = map (\<lambda>x. [fst x]) (designspaces s)
          \<and> (\<forall>e \<in> set es. e_rule e = ''variable'' \<and> e_implicit e = [])
          \<and> e_rule g = ''genstat''
          \<and> e_inputs g = map (variable_target d) (designspaces s)
          \<and> e_outputs g = [variable_target d (hd (designspaces s)) @ ''.statstamp'']
          \<and> e_implicit g = []
          \<and> temporaries (snd (build_variable s)) =
              temporaries s @ [variable_target d (hd (designspaces s)) @ ''.statstamp'']
              @ map (\<lambda>t. t @ ''.fixstamp'') (map (variable_target d) (designspaces s))"
proof -
  let ?dss = "designspaces s"
  let ?s1 = "emit_all [Newline, Comment ''VARIABLE FONTS'', Newline] s"
  let ?tags = "join '','' (sorted_strs (map ax_tag (ds_axes (snd (last ?dss)))))"
  let ?tgts = "map (variable_target d) ?dss"
  obtain x xs where xs: "?dss = x # xs" using dss by (cases ?dss) auto
  let ?t0 = "variable_target d x"
  let ?stamp = "?t0 @ ''.statstamp''"
  have tg: "?tgts = ?t0 # map (variable_target d) xs" by (simp add: xs)
  have cfg1: "config ?s1 ''vfDir'' = Some (PStr d)" "config ?s1 ''flattenComponents'' = Some fc"
    "config ?s1 ''decomposeTransformedComponents'' = Some dc"
    using vf fc dc by simp_all
  from build_variable_loop_ok[OF cfg1, of ?dss "[]" None]
  obtain es where loop: "build_variable_loop ?dss [] None ?s1 =
        (Inr (?tgts, Some ?tags), ?s1\<lparr>w := w ?s1 @ map Build es\<rparr>)"
    and es: "map e_outputs es = map (\<lambda>x. [variable_target d x]) ?dss"
      "map e_inputs es = map (\<lambda>x. [fst x]) ?dss"
      "\<forall>e \<in> set es. e_rule e = ''variable'' \<and> e_implicit e = []"
    using dss by auto
  let ?s3 = "emit Newline (?s1\<lparr>w := w ?s1 @ map Build es\<rparr>)"
  have cfg3: "config ?s3 = config s" by simp
  let ?r4 = "gen_stat ?tags (?t0 # map (variable_target d) xs) ?s3"
  have c3: "config ?s3 ''stylespaceFile'' = None" "config ?s3 ''statFormat4'' = None"
    using ssf sf4 by simp_all
  obtain r s4 where rs: "?r4 = (r, s4)" by (cases ?r4)
  from gen_stat_ok[OF c3, of ?tags ?t0 "map (variable_target d) xs"]
  obtain g where r4: "r = Inr ?stamp"
    and t4: "temporaries s4 = temporaries ?s3 @ [?stamp]"
    and w4: "w s4 = w ?s3 @ [Comment ''Generate STAT tables'', Build g, Newline]"
    and g: "e_outputs g = [?stamp]" "e_rule g = ''genstat''"
      "e_inputs g = ?t0 # map (variable_target d) xs" "e_implicit g = []"
    and c4: "\<forall>k. k \<noteq> ''axisOrder'' \<longrightarrow> config s4 k = config ?s3 k"
    unfolding rs by auto
  let ?s5 = "emit (Comment ''Variable font post-processing'') s4"
  have c5: "config ?s5 ''includeSourceFixes'' = Some isf"
    using c4 isf by simp
  have loop': "build_variable_loop (designspaces ?s1) [] None ?s1 =
        (Inr (?tgts, Some ?tags), ?s1\<lparr>w := w ?s1 @ map Build es\<rparr>)"
    using loop by simp
  have bv: "build_variable s = post_process_each ?tgts (Some ?stamp) ?s5"
    unfolding build_variable_def Let_def loop'
    using rs r4 by (simp add: tg)
  note pp = post_process_each_ok[OF c5, of ?tgts "Some ?stamp"]
  have w6: "w (snd (build_variable s)) =
      w s @ ([Newline, Comment ''VARIABLE FONTS'', Newline] @ map Build es @ [Newline]
             @ [Comment ''Generate STAT tables'', Build g, Newline]
             @ [Comment ''Variable font post-processing'']
             @ map (\<lambda>t. Build \<lparr>e_outputs = [t @ ''.fixstamp''], e_rule = ''fix'',
                          e_inputs = [t], e_implicit = [?stamp],
                          e_variables = (if truthy isf
                                         then [(''fixargs'', PStr ''--include-source-fixes'')]
                                         else [])\<rparr>) ?tgts)"
    unfolding bv pp by (simp add: w4 as_list_def)
  have t6: "temporaries (snd (build_variable s)) =
      temporaries s @ [?stamp] @ map (\<lambda>t. t @ ''.fixstamp'') ?tgts"
    unfolding bv pp by (simp add: t4)
  have ne: "new_edges s (snd (build_variable s)) =
      es @ [g] @ map (\<lambda>t. \<lparr>e_outputs = [t @ ''.fixstamp''], e_rule = ''fix'',
                          e_inputs = [t], e_implicit = [?stamp],
                          e_variables = (if truthy isf
                                         then [(''fixargs'', PStr ''--include-source-fixes'')]
                                         else [])\<rparr>) ?tgts"
    unfolding new_edges_append[OF w6] by (simp add: edges_of_append)
  have f6: "fst (build_variable s) = Inr ()"
    unfolding bv pp by simp
  have hd: "hd ?dss = x" by (simp add: xs)
  show ?thesis
    apply (rule exI[of _ es], rule exI[of _ g])
    using f6 ne es g t6 tg by (simp add: hd)
qed

lemma example_variable_cfg:
  "config example_builder ''vfDir'' = Some (PStr ''../fonts/variable'')"
  "config example_builder ''flattenComponents'' = Some (PBool True)"
  "config example_builder ''decomposeTransformedComponents'' = Some (PBool True)"
  "config example_builder ''includeSourceFixes'' = Some (PBool False)"
  "config example_builder ''stylespaceFile'' = None"
  "config example_builder ''statFormat4'' = None"
  by (simp_all add: example_builder_def example_config_def)

text \<open>
  C1. In a build whose variable-font stage runs (at least one design description, the
  directory and tool-flag options set, no style-space file and no format-4 table in the
  recipe), \<open>build_variable\<close> returns normally and writes exactly one table-generation
  edge. Its inputs are exactly the outputs of the compile edges of the stage, the
  variable-font targets, one for each design description; its output is one stamp file,
  the first target followed by \<open>.statstamp\<close>, which is recorded as a temporary. There is
  one fix edge for each variable-font target, and the implicit input of every fix edge
  is that stamp file.
\<close>

theorem table_generation_barrier:
  assumes "designspaces s \<noteq> []"
    and "config s ''vfDir'' = Some (PStr d)"
    and "config s ''flattenComponents'' = Some fc"
    and "config s ''decomposeTransformedComponents'' = Some dc"
    and "config s ''includeSourceFixes'' = Some isf"
    and "config s ''stylespaceFile'' = None"
    and "config s ''statFormat4'' = None"
  shows "\<exists>g stamp.
           fst (build_variable s) = Inr ()
         \<and> edges_with_rule ''genstat'' (new_edges s (snd (build_variable s))) = [g]
         \<and> e_inputs g =
             concat (map e_outputs (edges_with_rule ''variable'' (new_edges s (snd (build_variable s)))))
         \<and> e_inputs g = map (variable_target d) (designspaces s)
         \<and> e_outputs g = [stamp]
         \<and> stamp = hd (e_inputs g) @ ''.statstamp''
         \<and> stamp \<in> set (temporaries (snd (build_variable s)))
         \<and> map e_inputs (edges_with_rule ''fix'' (new_edges s (snd (build_variable s))))
             = map (\<lambda>t. [t]) (e_inputs g)
         \<and> (\<forall>e \<in> set (edges_with_rule ''fix'' (new_edges s (snd (build_variable s)))).
               e_implicit e = [stamp])"
proof -
  let ?new = "new_edges s (snd (build_variable s))"
  define stamp where "stamp = variable_target d (hd (designspaces s)) @ ''.statstamp''"
  define tgts where "tgts = map (variable_target d) (designspaces s)"
  define vars where "vars = (if truthy isf
                             then [(''fixargs'', PStr ''--include-source-fixes'')] else [])"
  define mkfix where "mkfix = (\<lambda>t. \<lparr>e_outputs = [t @ ''.fixstamp''], e_rule = ''fix'',
                                 e_inputs = [t], e_implicit = [stamp], e_variables = vars\<rparr>)"
  from build_variable_edges[OF assms] obtain es g where
    ok: "fst (build_variable s) = Inr ()"
    and new: "?new = es @ [g] @ map mkfix tgts"
    and es: "map e_outputs es = map (\<lambda>x. [variable_target d x]) (designspaces s)"
      "\<forall>e \<in> set es. e_rule e = ''variable'' \<and> e_implicit e = []"
    and g: "e_rule g = ''genstat''" "e_inputs g = tgts" "e_outputs g = [stamp]"
    and tmp: "temporaries (snd (build_variable s)) =
              temporaries s @ [stamp] @ map (\<lambda>t. t @ ''.fixstamp'') tgts"
    unfolding stamp_def tgts_def vars_def mkfix_def by blast
  have f_es: "edges_with_rule r es = (if r = ''variable'' then es else [])" for r
    using es(2) by (auto simp: edges_with_rule_def filter_empty_conv filter_id_conv)
  have f_fix: "edges_with_rule r (map mkfix ts) = (if r = ''fix'' then map mkfix ts else [])" for r ts
    by (induction ts) (auto simp: mkfix_def)
  have gen: "edges_with_rule ''genstat'' ?new = [g]"
    by (simp add: new f_es f_fix g(1))
  have var: "edges_with_rule ''variable'' ?new = es"
    by (simp add: new f_es f_fix g(1))
  have fx: "edges_with_rule ''fix'' ?new = map mkfix tgts"
    by (simp add: new f_es f_fix g(1))
  have cc: "concat (map e_outputs es) = tgts"
    unfolding es(1) tgts_def by (induction "designspaces s") auto
  have hd: "hd tgts = variable_target d (hd (designspaces s))"
    using assms(1) by (simp add: tgts_def hd_map)
  have fin: "map e_inputs (map mkfix tgts) = map (\<lambda>t. [t]) tgts"
    "\<forall>e \<in> set (map mkfix tgts). e_implicit e = [stamp]"
    by (simp_all add: mkfix_def comp_def)
  have st: "stamp = hd tgts @ ''.statstamp''"
    by (simp add: hd stamp_def)
  have g2: "e_inputs g = map (variable_target d) (designspaces s)"
    by (simp add: g(2) tgts_def)
  show ?thesis
    apply (rule exI[of _ g], rule exI[of _ stamp])
    using fin st g2 by (simp add: ok gen var fx cc g tmp)
qed

theorem table_generation_barrier_witness:
  "designspaces loaded_builder \<noteq> []
   \<and> fst (build_variable loaded_builder) = Inr ()
   \<and> map e_inputs (edges_with_rule ''genstat''
        (new_edges loaded_builder
           (snd (build_variable loaded_builder))))
      = [[''../fonts/variable/Family[wdth,wght].ttf'']]"
proof -
  let ?s = "loaded_builder"
  have c: "config ?s = config example_builder" by (simp add: loaded_builder_def)
  have d: "designspaces ?s \<noteq> []" by (simp add: loaded_builder_def)
  have ds: "designspaces ?s = [(''master/Family.designspace'', example_designspace)]"
    by (simp add: loaded_builder_def)
  have t: "variable_target ''../fonts/variable'' (''master/Family.designspace'', example_designspace)
            = ''../fonts/variable/Family[wdth,wght].ttf''"
    by code_simp
  from table_generation_barrier[OF d, of "''../fonts/variable''" "PBool True" "PBool True" "PBool False"]
    example_variable_cfg
  obtain g stamp where
    "fst (build_variable ?s) = Inr ()"
    "edges_with_rule ''genstat'' (new_edges ?s (snd (build_variable ?s))) = [g]"
    "e_inputs g = map (variable_target ''../fonts/variable'') (designspaces ?s)"
    unfolding c by blast
  then show ?thesis using t d by (simp add: ds)
qed

subsection \<open>The name of a variable-font target\<close>

lemma split_on_no_sep: "x \<in> set (split_on c s) \<Longrightarrow> c \<notin> set x"
proof (induction s arbitrary: x)
  case Nil
  then show ?case by simp
next
  case (Cons a s)
  then show ?case
    by (cases "split_on c s") (auto split: if_splits)
qed

lemma name_stem_subset: "set (name_stem n) \<subseteq> set n"
  by (auto simp: name_stem_def split: option.splits dest: in_set_takeD)

lemma path_stem_no_slash: "CHR ''/'' \<notin> set (path_stem (parse_path p))"
proof -
  have "CHR ''/'' \<notin> set (path_name (parse_path p))"
  proof (cases "path_parts (parse_path p) = []")
    case True
    then show ?thesis by (simp add: path_name_def)
  next
    case False
    then have "last (path_parts (parse_path p)) \<in> set (split_on CHR ''/'' p)"
      using last_in_set[OF False] by (auto simp: parse_path_def)
    then show ?thesis
      using False split_on_no_sep by (simp add: path_name_def)
  qed
  then show ?thesis
    using name_stem_subset by (auto simp: path_stem_def)
qed

lemma variable_target_under_dir:
  "variable_target d x =
     d @ (if d = [] \<or> endswith d ''/'' then [] else ''/'')
       @ path_stem (parse_path (fst x)) @ ''['' @
         join '','' (sorted_strs (map ax_tag (ds_axes (snd x)))) @ ''].ttf''"
proof -
  have "\<not> startswith (path_stem (parse_path (fst x)) @ ''['' @ r) ''/''" for r
    using path_stem_no_slash[of "fst x"]
    by (cases "path_stem (parse_path (fst x))") auto
  then show ?thesis
    by (simp add: variable_target_def os_path_join_def)
qed

text \<open>
  C6. For every design description of the family, the compile edge of the variable-font
  stage takes the design description as its input and outputs one target: the configured
  directory \<open>vfDir\<close>, a slash unless the directory is empty or ends with one, the stem of
  the design description's file name, \<open>[\<close>, the axis tags sorted and joined with
  commas, \<open>]\<close>, and the extension \<open>.ttf\<close>. Sorting gives a sorted list with the same
  tags.
\<close>

theorem variable_target_name:
  assumes "designspaces s \<noteq> []"
    and "config s ''vfDir'' = Some (PStr d)"
    and "config s ''flattenComponents'' = Some fc"
    and "config s ''decomposeTransformedComponents'' = Some dc"
    and "config s ''includeSourceFixes'' = Some isf"
    and "config s ''stylespaceFile'' = None"
    and "config s ''statFormat4'' = None"
  shows "map e_inputs (edges_with_rule ''variable'' (new_edges s (snd (build_variable s))))
           = map (\<lambda>x. [fst x]) (designspaces s)
       \<and> map e_outputs (edges_with_rule ''variable'' (new_edges s (snd (build_variable s))))
           = map (\<lambda>x. [d @ (if d = [] \<or> endswith d ''/'' then [] else ''/'')
                          @ path_stem (parse_path (fst x)) @ ''[''
                          @ join '','' (sorted_strs (map ax_tag (ds_axes (snd x))))
                          @ ''].ttf'']) (designspaces s)
       \<and> (\<forall>ts. sorted (sorted_strs ts) \<and> set (sorted_strs ts) = set ts
                \<and> length (sorted_strs ts) = length ts)"
proof -
  let ?new = "new_edges s (snd (build_variable s))"
  from build_variable_edges[OF assms] obtain es g r where
    new: "?new = es @ [g] @ r"
    and es: "map e_outputs es = map (\<lambda>x. [variable_target d x]) (designspaces s)"
      "map e_inputs es = map (\<lambda>x. [fst x]) (designspaces s)"
      "\<forall>e \<in> set es. e_rule e = ''variable'' \<and> e_implicit e = []"
    and g: "e_rule g = ''genstat''"
    and r: "r = map (\<lambda>t. \<lparr>e_outputs = [t @ ''.fixstamp''], e_rule = ''fix'', e_inputs = [t],
                         e_implicit = [variable_target d (hd (designspaces s)) @ ''.statstamp''],
                         e_variables = (if truthy isf
                                        then [(''fixargs'', PStr ''--include-source-fixes'')]
                                        else [])\<rparr>)
                  (map (variable_target d) (designspaces s))"
    by blast
  have f_es: "edges_with_rule ''variable'' es = es"
    using es(3) by (auto simp: edges_with_rule_def filter_id_conv)
  have f_r: "edges_with_rule ''variable'' r = []"
    unfolding r by (auto simp: edges_with_rule_def filter_empty_conv)
  have var: "edges_with_rule ''variable'' ?new = es"
    by (simp add: new f_es f_r g)
  show ?thesis
    unfolding var es
    by (simp add: variable_target_under_dir sorted_strs_def)
qed

theorem variable_target_name_witness:
  "designspaces loaded_builder \<noteq> []
   \<and> map e_outputs (edges_with_rule ''variable''
        (new_edges loaded_builder (snd (build_variable loaded_builder))))
      = [[''../fonts/variable/Family[wdth,wght].ttf'']]"
proof -
  have c: "config loaded_builder = config example_builder" by (simp add: loaded_builder_def)
  have d: "designspaces loaded_builder \<noteq> []" by (simp add: loaded_builder_def)
  have ds: "designspaces loaded_builder = [(''master/Family.designspace'', example_designspace)]"
    by (simp add: loaded_builder_def)
  have t: "''../fonts/variable'' @ ''/'' @ path_stem (parse_path ''master/Family.designspace'')
           @ ''['' @ join '','' (sorted_strs (map ax_tag (ds_axes example_designspace))) @ ''].ttf''
            = ''../fonts/variable/Family[wdth,wght].ttf''"
    by code_simp
  have e: "\<not> endswith ''../fonts/variable'' ''/''" by (simp add: endswith_def)
  from variable_target_name[OF d, of "''../fonts/variable''" "PBool True" "PBool True" "PBool False"]
    example_variable_cfg
  have "map e_outputs (edges_with_rule ''variable''
        (new_edges loaded_builder (snd (build_variable loaded_builder))))
      = map (\<lambda>x. [''../fonts/variable'' @ (if ''../fonts/variable'' = [] \<or> endswith ''../fonts/variable'' ''/'' then [] else ''/'')
                          @ path_stem (parse_path (fst x)) @ ''[''
                          @ join '','' (sorted_strs (map ax_tag (ds_axes (snd x))))
                          @ ''].ttf'']) (designspaces loaded_builder)"
    unfolding c by blast
  then show ?thesis using t d e by (simp add: ds)
qed

subsection \<open>The instance UFOs of the static stage\<close>

lemma split_on_single: "sep \<notin> set x \<Longrightarrow> split_on sep x = [x]"
  by (induction x) auto

lemma split_on_append: "sep \<notin> set x \<Longrightarrow> split_on sep (x @ sep # r) = x # split_on sep r"
  by (induction x) auto

lemma split_on_join:
  "parts \<noteq> [] \<Longrightarrow> \<forall>c \<in> set parts. CHR ''/'' \<notin> set c \<Longrightarrow>
   split_on CHR ''/'' (join ''/'' parts) = parts"
proof (induction parts)
  case Nil
  then show ?case by simp
next
  case (Cons x xs)
  show ?case
  proof (cases xs)
    case Nil
    then show ?thesis using Cons.prems by (simp add: split_on_single)
  next
    case (Cons y ys)
    then have "split_on CHR ''/'' (join ''/'' xs) = xs"
      using Cons.IH Cons.prems by simp
    then show ?thesis
      using Cons Cons.prems by (simp add: split_on_append)
  qed
qed

lemma join_starts:
  "parts \<noteq> [] \<Longrightarrow> component (hd parts) \<Longrightarrow> \<not> startswith (join ''/'' parts) ''/''"
proof (cases parts)
  case Nil
  then show "parts \<noteq> [] \<Longrightarrow> ?thesis" by simp
next
  case (Cons x xs)
  assume "component (hd parts)"
  then obtain a x' where "x = a # x'" "a \<noteq> CHR ''/''"
    using Cons by (cases x) (auto simp: component_def)
  then show ?thesis using Cons by (cases xs) auto
qed

lemma parse_path_join:
  assumes "parts \<noteq> []" and "\<forall>c \<in> set parts. component c"
  shows "parse_path (join ''/'' parts) = Path [] parts"
proof -
  have a: "split_on CHR ''/'' (join ''/'' parts) = parts"
    using assms by (intro split_on_join) (auto simp: component_def)
  have b: "\<not> startswith (join ''/'' parts) ''/''"
    using assms by (intro join_starts) auto
  have c: "\<not> startswith (join ''/'' parts) ''//''"
    using b by (cases "join ''/'' parts") auto
  have d: "filter (\<lambda>c. c \<noteq> [] \<and> c \<noteq> ''.'') parts = parts"
    using assms(2) by (auto simp: filter_id_conv component_def)
  show ?thesis
    by (simp add: parse_path_def a b c d)
qed

lemma verbatim_when_normal:
  assumes "parts \<noteq> []" and "\<forall>c \<in> set parts. component c"
  shows "path_str (parse_path (join ''/'' parts)) = join ''/'' parts"
  using assms by (simp add: parse_path_join path_str_def)

lemma joined_with_directory:
  assumes "\<forall>c \<in> set dparts. component c" and "component file" and "component fn"
  shows "path_str (path_div (path_parent (parse_path (join ''/'' (dparts @ [file])))) fn)
           = join ''/'' (dparts @ [fn])"
proof -
  have "parse_path (join ''/'' (dparts @ [file])) = Path [] (dparts @ [file])"
    using assms by (intro parse_path_join) auto
  moreover have "parse_path fn = Path [] [fn]"
    using parse_path_join[of "[fn]"] assms(3) by simp
  ultimately show ?thesis
    by (simp add: path_parent_def path_div_def path_str_def Let_def)
qed

lemma instance_ufo_filenames_ok:
  assumes "\<forall>i \<in> set is. inst_filename i \<noteq> None"
  shows "instance_ufo_filenames_loop p is =
           Inr (map (\<lambda>i. if CHR ''/'' \<in> set (the (inst_filename i))
                          then parse_path (the (inst_filename i))
                          else path_div (path_parent (parse_path p)) (the (inst_filename i))) is)"
  using assms by (induction "is") (auto simp: Let_def)

lemma build_static_loop_ok:
  assumes "\<forall>x \<in> set dss. \<forall>i \<in> set (ds_instances (snd x)). inst_filename i \<noteq> None"
  shows "fst (build_static_loop dss s) = Inr ()
       \<and> (\<exists>g. w (snd (build_static_loop dss s)) = w s @ g
              \<and> edges_of g =
                  map (\<lambda>x. \<lparr>e_outputs = map (\<lambda>i. instance_target (fst x) (the (inst_filename i)))
                                            (ds_instances (snd x)),
                             e_rule = ''instanceufo'', e_inputs = [fst x], e_implicit = [],
                             e_variables = []\<rparr>) dss)"
  using assms
proof (induction dss arbitrary: s)
  case Nil
  then show ?case by simp
next
  case (Cons x dss)
  obtain p ds where x: "x = (p, ds)" by (cases x)
  have i: "\<forall>i \<in> set (ds_instances ds). inst_filename i \<noteq> None"
    using Cons.prems x by auto
  let ?s1 = "emit Newline (w_build (map (\<lambda>i. instance_target p (the (inst_filename i))) (ds_instances ds))
                 ''instanceufo'' [p] [] []
                 (emit (Comment (''  Interpolate UFOs for '' @ os_path_basename p)) s))"
  have step: "build_static_loop (x # dss) s = build_static_loop dss ?s1"
    by (simp add: x instance_ufo_filenames_def instance_ufo_filenames_ok[OF i] Let_def
        instance_target_def comp_def if_distrib[of path_str])
  from Cons.IH[of ?s1] Cons.prems
  obtain g where g: "fst (build_static_loop dss ?s1) = Inr ()"
    "w (snd (build_static_loop dss ?s1)) = w ?s1 @ g"
    "edges_of g = map (\<lambda>x. \<lparr>e_outputs = map (\<lambda>i. instance_target (fst x) (the (inst_filename i)))
                                            (ds_instances (snd x)),
                             e_rule = ''instanceufo'', e_inputs = [fst x], e_implicit = [],
                             e_variables = []\<rparr>) dss"
    by auto
  show ?case
    unfolding step
    apply (rule conjI[OF g(1)])
    apply (rule exI[of _ "[Comment (''  Interpolate UFOs for '' @ os_path_basename p),
                            Build \<lparr>e_outputs = map (\<lambda>i. instance_target p (the (inst_filename i)))
                                            (ds_instances ds),
                             e_rule = ''instanceufo'', e_inputs = [p], e_implicit = [],
                             e_variables = []\<rparr>, Newline] @ g"])
    using g(2,3) by (simp add: x edges_of_append)
qed

text \<open>
  C7, as the code has it. When every instance has a filename, the loop of
  \<open>build_static\<close> returns normally and writes one instantiate edge for each design
  description, whose outputs are exactly the instance targets, in order. A filename with
  a slash is taken as a \<open>pathlib\<close> path and written out again: it is used verbatim when
  its components are in normal form (none empty, none \<open>.\<close>). A filename without a slash
  is joined to the directory of the design description.
\<close>

theorem instantiate_outputs:
  assumes "\<forall>x \<in> set dss. \<forall>i \<in> set (ds_instances (snd x)). inst_filename i \<noteq> None"
  shows "fst (build_static_loop dss s) = Inr ()
       \<and> new_edges s (snd (build_static_loop dss s)) =
           map (\<lambda>x. \<lparr>e_outputs = map (\<lambda>i. instance_target (fst x) (the (inst_filename i)))
                                     (ds_instances (snd x)),
                      e_rule = ''instanceufo'', e_inputs = [fst x], e_implicit = [],
                      e_variables = []\<rparr>) dss
       \<and> (\<forall>p parts. CHR ''/'' \<in> set (join ''/'' parts) \<and> (\<forall>c \<in> set parts. component c)
              \<longrightarrow> instance_target p (join ''/'' parts) = join ''/'' parts)
       \<and> (\<forall>dparts file fn. (\<forall>c \<in> set dparts. component c) \<and> component file \<and> component fn
              \<longrightarrow> instance_target (join ''/'' (dparts @ [file])) fn = join ''/'' (dparts @ [fn]))"
proof -
  from build_static_loop_ok[OF assms, of s] obtain g where
    ok: "fst (build_static_loop dss s) = Inr ()"
    and w: "w (snd (build_static_loop dss s)) = w s @ g"
    and g: "edges_of g =
             map (\<lambda>x. \<lparr>e_outputs = map (\<lambda>i. instance_target (fst x) (the (inst_filename i)))
                                     (ds_instances (snd x)),
                      e_rule = ''instanceufo'', e_inputs = [fst x], e_implicit = [],
                      e_variables = []\<rparr>) dss"
    by blast
  have v: "instance_target p (join ''/'' parts) = join ''/'' parts"
    if "CHR ''/'' \<in> set (join ''/'' parts)" "\<forall>c \<in> set parts. component c" for p parts
  proof -
    have "parts \<noteq> []" using that(1) by auto
    then show ?thesis
      using that by (simp add: instance_target_def verbatim_when_normal)
  qed
  have j: "instance_target (join ''/'' (dparts @ [fl])) fn = join ''/'' (dparts @ [fn])"
    if "\<forall>c \<in> set dparts. component c" "component fl" "component fn" for dparts fl fn
    using that joined_with_directory[OF that]
    by (simp add: instance_target_def component_def)
  show ?thesis
    using ok g v j by (simp add: new_edges_append[OF w])
qed

theorem instantiate_outputs_witness:
  "map e_outputs (new_edges loaded_builder
       (snd (build_static_loop (designspaces loaded_builder) loaded_builder)))
     = [[''master/Light.ufo'', ''master/Black.ufo'']]"
proof -
  have ds: "designspaces loaded_builder = [(''master/Family.designspace'', example_designspace)]"
    by (simp add: loaded_builder_def)
  have h: "\<forall>x \<in> set (designspaces loaded_builder).
             \<forall>i \<in> set (ds_instances (snd x)). inst_filename i \<noteq> None"
    by (simp add: ds example_designspace_def)
  have t: "instance_target ''master/Family.designspace'' ''Light.ufo'' = ''master/Light.ufo''"
    "instance_target ''master/Family.designspace'' ''Black.ufo'' = ''master/Black.ufo''"
    by code_simp+
  show ?thesis
    using instantiate_outputs[OF h, of loaded_builder] t
    by (simp add: ds example_designspace_def)
qed

text \<open>
  C7 as stated fails: the filename \<open>./instance_ufos/Light.ufo\<close> has a slash and is not
  used verbatim; the instantiate edge outputs \<open>instance_ufos/Light.ufo\<close>.
\<close>

theorem instance_filename_verbatim_counterexample:
  "CHR ''/'' \<in> set ''./instance_ufos/Light.ufo''
   \<and> map inst_filename (ds_instances (snd (hd (designspaces dotted_builder))))
       = [Some ''./instance_ufos/Light.ufo'']
   \<and> map e_outputs (new_edges dotted_builder
         (snd (build_static_loop (designspaces dotted_builder) dotted_builder)))
       = [[''instance_ufos/Light.ufo'']]"
  by code_simp

subsection \<open>Every stamp output is recorded\<close>

lemma stamps_recorded_emit [simp]:
  "stamps_recorded (emit x s) = (stamps_recorded s \<and> recorded [x] (temporaries s))"
  by (simp add: stamps_recorded_def)

lemma stamps_recorded_emit_all [simp]:
  "stamps_recorded (emit_all xs s) = (stamps_recorded s \<and> recorded xs (temporaries s))"
  by (simp add: stamps_recorded_def)

lemma stamps_recorded_w_build [simp]:
  "stamps_recorded (w_build outs r ins imp vars s) =
     (stamps_recorded s \<and> (r \<in> set stamp_rules \<longrightarrow> set outs \<subseteq> set (temporaries s)))"
  by (simp add: stamps_recorded_def)

lemma stamps_recorded_update [simp]:
  "stamps_recorded (s\<lparr>config := c\<rparr>) = stamps_recorded s"
  "stamps_recorded (s\<lparr>designspaces := d\<rparr>) = stamps_recorded s"
  "stamps_recorded (s\<lparr>disk := k\<rparr>) = stamps_recorded s"
  by (simp_all add: stamps_recorded_def)

lemma inv_setup_rules:
  "setup_rules s = (r, s') \<Longrightarrow> stamps_recorded s \<Longrightarrow> stamps_recorded s'"
  by (auto simp: setup_rules_def Let_def split: sum.splits if_splits)

lemma inv_get_designspaces_loop:
  "get_designspaces_loop ev srcs s = (r, s') \<Longrightarrow> stamps_recorded s \<Longrightarrow> stamps_recorded s'"
proof (induction srcs arbitrary: s)
  case Nil
  then show ?case by simp
next
  case (Cons source rest)
  note IH = Cons.IH
  show ?case
    using Cons.prems
    by (auto simp: Let_def split: if_splits sum.splits dest!: IH)
qed

lemma inv_get_designspaces:
  "get_designspaces ev s = (r, s') \<Longrightarrow> stamps_recorded s \<Longrightarrow> stamps_recorded s'"
  by (auto simp: get_designspaces_def Let_def split: sum.splits pyval.splits prod.splits
      dest!: inv_get_designspaces_loop)


lemma inv_build_variable_loop:
  "build_variable_loop dss tgts tags s = (r, s') \<Longrightarrow> stamps_recorded s \<Longrightarrow> stamps_recorded s'"
proof (induction dss arbitrary: tgts tags s)
  case Nil
  then show ?case by simp
next
  case (Cons x dss)
  note IH = Cons.IH
  obtain p ds where x: "x = (p, ds)" by (cases x)
  show ?case
    using Cons.prems
    by (auto simp: x Let_def split: sum.splits dest!: IH)
qed

lemma inv_post_process_each:
  "post_process_each ts imp s = (r, s') \<Longrightarrow> stamps_recorded s \<Longrightarrow> stamps_recorded s'"
proof (induction ts arbitrary: s)
  case Nil
  then show ?case by simp
next
  case (Cons t ts)
  note IH = Cons.IH
  show ?case
    using Cons.prems
    by (auto split: sum.splits prod.splits dest!: IH dest: inv_post_process)
qed

lemma inv_build_variable:
  "build_variable s = (r, s') \<Longrightarrow> stamps_recorded s \<Longrightarrow> stamps_recorded s'"
  unfolding build_variable_def Let_def
  by (auto split: sum.splits prod.splits option.splits
      dest!: inv_build_variable_loop inv_gen_stat inv_post_process_each)


lemma build_rule_no_stamp [simp]: "CHR ''b'' # x \<notin> set stamp_rules"
  by (simp add: stamp_rules_def)

lemma inv_build_format_ufos:
  "build_format_ufos fmt td ufos tgts s = (r, s') \<Longrightarrow> stamps_recorded s \<Longrightarrow> stamps_recorded s'"
proof (induction ufos arbitrary: tgts s)
  case Nil
  then show ?case by simp
next
  case (Cons ufo ufos)
  note IH = Cons.IH
  show ?case
    using Cons.prems
    by (auto simp: Let_def split: sum.splits dest!: IH)
qed

lemma inv_build_format_designspaces:
  "build_format_designspaces fmt td dss tgts s = (r, s') \<Longrightarrow> stamps_recorded s \<Longrightarrow>
   stamps_recorded s'"
proof (induction dss arbitrary: tgts s)
  case Nil
  then show ?case by simp
next
  case (Cons x dss)
  note IH = Cons.IH
  obtain p ds where x: "x = (p, ds)" by (cases x)
  show ?case
    using Cons.prems
    by (auto simp: x Let_def split: sum.splits prod.splits
        dest!: IH inv_build_format_ufos)
qed

lemma inv_postprocess_each:
  assumes "\<And>t s r s'. pp t s = (r, s') \<Longrightarrow> stamps_recorded s \<Longrightarrow> stamps_recorded s'"
  shows "postprocess_each pp ts s = (r, s') \<Longrightarrow> stamps_recorded s \<Longrightarrow> stamps_recorded s'"
proof (induction ts arbitrary: s)
  case Nil
  then show ?case by simp
next
  case (Cons t ts)
  note IH = Cons.IH
  show ?case
    using Cons.prems
    by (auto split: sum.splits prod.splits dest!: IH dest: assms)
qed

lemma inv_build_a_static_format:
  assumes "\<And>t s r s'. pp t s = (r, s') \<Longrightarrow> stamps_recorded s \<Longrightarrow> stamps_recorded s'"
    and eq: "build_a_static_format fmt dir pp s = (r, s')"
    and inv: "stamps_recorded s"
  shows "stamps_recorded s'"
proof -
  let ?s1 = "emit_all [Comment (''Build '' @ fmt @ '' format''), Newline] s"
  have i1: "stamps_recorded ?s1" using inv by simp
  show ?thesis
  proof (cases "cfg_item (config ?s1) (if fmt = ''ttf'' then ''ttDir'' else ''otDir'')")
    case (Inl e)
    then show ?thesis
      using eq i1 by (simp add: build_a_static_format_def Let_def)
  next
    case td: (Inr td)
    obtain r2 s2 where l: "build_format_designspaces fmt td (designspaces ?s1) [] ?s1 = (r2, s2)"
      by (cases "build_format_designspaces fmt td (designspaces ?s1) [] ?s1")
    have i2: "stamps_recorded s2"
      using inv_build_format_designspaces[OF l i1] .
    show ?thesis
    proof (cases r2)
      case (Inl e)
      then show ?thesis
        using eq td l i2 by (simp add: build_a_static_format_def Let_def)
    next
      case (Inr tg)
      let ?s2 = "emit_all [Newline, Comment (''Post-processing '' @ fmt @ ''s'')] s2"
      obtain r3 s3 where p: "postprocess_each pp tg ?s2 = (r3, s3)"
        by (cases "postprocess_each pp tg ?s2")
      have "stamps_recorded ?s2" using i2 by simp
      then have i3: "stamps_recorded s3"
        using inv_postprocess_each[of pp, OF assms(1) p] by simp
      show ?thesis
        using eq td l Inr p i3
        by (cases r3) (auto simp: build_a_static_format_def Let_def)
    qed
  qed
qed

lemma inv_static_ttf:
  "build_a_static_format fmt dir post_process_ttf s = (r, s') \<Longrightarrow> stamps_recorded s \<Longrightarrow>
   stamps_recorded s'"
  using inv_build_a_static_format[of post_process_ttf fmt dir s r s'] inv_post_process_ttf
  by blast

lemma inv_static_otf:
  "build_a_static_format fmt dir (\<lambda>t. post_process t None) s = (r, s') \<Longrightarrow>
   stamps_recorded s \<Longrightarrow> stamps_recorded s'"
  using inv_build_a_static_format[of "\<lambda>t. post_process t None" fmt dir s r s'] inv_post_process
  by blast

lemma inv_GFBuilder_build_static:
  assumes eq: "GFBuilder_build_static s = (r, s')" and inv: "stamps_recorded s"
  shows "stamps_recorded s'"
proof (cases "cfg_item (config s) ''buildOTF''")
  case (Inl e)
  then show ?thesis using eq inv by (simp add: GFBuilder_build_static_def)
next
  case bo: (Inr bo)
  let ?otf = "if truthy bo
              then (case cfg_item (config s) ''otDir'' of
                      Inl e \<Rightarrow> (Inl e, s)
                    | Inr od \<Rightarrow> build_a_static_format ''otf'' (py_str od)
                                  (\<lambda>t. post_process t None) s)
              else (Inr (), s)"
  obtain r1 s1 where o: "?otf = (r1, s1)" by (cases ?otf)
  have i1: "stamps_recorded s1"
    using o inv by (auto split: if_splits sum.splits dest: inv_static_otf)
  show ?thesis
  proof (cases r1)
    case (Inl e)
    then show ?thesis
      using eq bo o i1 by (simp add: GFBuilder_build_static_def)
  next
    case (Inr u)
    have "(case cfg_item (config s1) ''buildTTF'' of
             Inl e \<Rightarrow> (Inl e, s1)
           | Inr bt \<Rightarrow>
               if truthy bt
               then (case cfg_item (config s1) ''ttDir'' of
                       Inl e \<Rightarrow> (Inl e, s1)
                     | Inr td \<Rightarrow> build_a_static_format ''ttf'' (py_str td) post_process_ttf s1)
               else (Inr (), s1)) = (r, s')"
      using eq bo o Inr by (simp add: GFBuilder_build_static_def)
    then show ?thesis
      using i1 by (auto split: if_splits sum.splits dest: inv_static_ttf)
  qed
qed

lemma inv_build_static_loop:
  "build_static_loop dss s = (r, s') \<Longrightarrow> stamps_recorded s \<Longrightarrow> stamps_recorded s'"
proof (induction dss arbitrary: s)
  case Nil
  then show ?case by simp
next
  case (Cons x dss)
  note IH = Cons.IH
  obtain p ds where x: "x = (p, ds)" by (cases x)
  show ?case
    using Cons.prems
    by (auto simp: x Let_def split: sum.splits dest!: IH)
qed

lemma inv_build_static:
  "build_static s = (r, s') \<Longrightarrow> stamps_recorded s \<Longrightarrow> stamps_recorded s'"
  unfolding build_static_def Let_def
  by (auto split: sum.splits prod.splits
      dest!: inv_build_static_loop inv_GFBuilder_build_static)

lemma inv_build_vtt:
  "build_vtt k s = (r, s') \<Longrightarrow> stamps_recorded s \<Longrightarrow> stamps_recorded s'"
  by (auto simp: build_vtt_def split: sum.splits)

lemma inv_construct:
  "construct ev s = (r, s') \<Longrightarrow> stamps_recorded s \<Longrightarrow> stamps_recorded s'"
  unfolding construct_def
  by (auto split: sum.splits prod.splits if_splits
      dest!: inv_setup_rules inv_get_designspaces inv_build_variable inv_build_static
             inv_build_vtt)

lemma build_fresh:
  "build ev s =
     (case unsupported_scan UNSUPPORTED (config s) of
        Inl e \<Rightarrow> (Inl e, s)
      | Inr u \<Rightarrow>
          (case construct ev (fresh s) of
             (Inl e, s1) \<Rightarrow> (Inl e, s1)
           | (Inr u, s1) \<Rightarrow>
               (case cfg_item (config s1) ''logLevel'' of
                  Inl e \<Rightarrow> (Inl e, s1)
                | Inr ll \<Rightarrow>
                    let ninja_args = (if ll = PStr ''DEBUG'' then [''-v'', ''-j'', ''1''] else []);
                        s2 = s1\<lparr>disk := ninja_program ev ninja_args (w s1) (disk s1)\<rparr>
                    in tidy (temporaries s2) s2)))"
  unfolding build_def fresh_def by (rule refl)

text \<open>
  C10. Each of the three methods that write a stamp edge, \<open>gen_stat\<close>,
  \<open>post_process\<close> and \<open>post_process_ttf\<close>, keeps the invariant that every output of
  every table-generation, fix and hint edge written so far is in the list of recorded
  temporaries, whatever the method returns or raises; and when graph construction ends,
  normally or with an exception, the invariant holds of the graph written to
  \<open>build.ninja\<close>.
\<close>

theorem stamps_are_recorded:
  "(stamps_recorded s \<longrightarrow> stamps_recorded (snd (gen_stat tags ts s)))
   \<and> (stamps_recorded s \<longrightarrow> stamps_recorded (snd (post_process file imp s)))
   \<and> (stamps_recorded s \<longrightarrow> stamps_recorded (snd (post_process_ttf file s)))
   \<and> stamps_recorded (snd (construct ev (fresh s)))"
proof -
  have f: "stamps_recorded (fresh s)"
    by (simp add: fresh_def stamps_recorded_def)
  have a: "stamps_recorded (snd (gen_stat tags ts s))" if "stamps_recorded s"
    using inv_gen_stat[OF _ that, of tags ts] by (cases "gen_stat tags ts s") auto
  have b: "stamps_recorded (snd (post_process file imp s))" if "stamps_recorded s"
    using inv_post_process[OF _ that, of "file" imp] by (cases "post_process file imp s") auto
  have c: "stamps_recorded (snd (post_process_ttf file s))" if "stamps_recorded s"
    using inv_post_process_ttf[OF _ that, of "file"] by (cases "post_process_ttf file s") auto
  have d: "stamps_recorded (snd (construct ev (fresh s)))"
    using inv_construct[OF _ f, of ev] by (cases "construct ev (fresh s)") auto
  show ?thesis using a b c d by blast
qed

lemma example_graph_facts:
  "\<lparr>e_outputs = [''../fonts/ttf/Black.ttf.fixstamp''], e_rule = ''fix'',
     e_inputs = [''../fonts/ttf/Black.ttf''],
     e_implicit = [''../fonts/ttf/Black.ttf.autohintstamp''], e_variables = []\<rparr>
     \<in> set (edges_of (w (snd (construct example_env (fresh example_builder)))))"
  by code_simp

theorem stamps_are_recorded_witness:
  "\<lparr>e_outputs = [''../fonts/ttf/Black.ttf.fixstamp''], e_rule = ''fix'',
     e_inputs = [''../fonts/ttf/Black.ttf''],
     e_implicit = [''../fonts/ttf/Black.ttf.autohintstamp''], e_variables = []\<rparr>
     \<in> set (edges_of (w (snd (construct example_env (fresh example_builder)))))
   \<and> ''fix'' \<in> set stamp_rules
   \<and> ''../fonts/ttf/Black.ttf.fixstamp''
       \<in> set (temporaries (snd (construct example_env (fresh example_builder))))"
proof -
  have "stamps_recorded (snd (construct example_env (fresh example_builder)))"
    using stamps_are_recorded[where s = example_builder and ev = example_env] by blast
  then show ?thesis
    using example_graph_facts
    by (fastforce simp: stamps_recorded_def recorded_def)
qed

end
